theory Spec2Isabelle
  imports Main "HOL-Library.Sublist"
begin

section \<open>Values, effects and the environment\<close>

text \<open>
  The program is \<^verbatim>\<open>src/index.js\<close>: an Express route \<^verbatim>\<open>GET /scrape\<close> whose handler
  runs \<^verbatim>\<open>findMinimalM3u8Link(targetUrl)\<close> against a headless browser and sends the
  result as \<^verbatim>\<open>{link: ...}\<close>. The browser automation library is outside the repository:
  every answer it gives (a call resolves or rejects, which requests the page issues and
  when) is a field of the environment record below, so the theorems hold for every
  behaviour of the library.
\<close>

text \<open>A thrown JavaScript error: its \<^verbatim>\<open>name\<close> and its \<^verbatim>\<open>message\<close>.\<close>

datatype jserror = JSError (errname: string) (message: string)

text \<open>\<^verbatim>\<open>`${error}`\<close> is \<^verbatim>\<open>Error.prototype.toString\<close>.\<close>

definition error_toString :: "jserror \<Rightarrow> string" where
  "error_toString e =
     (if errname e = [] then message e
      else if message e = [] then errname e
      else errname e @ '': '' @ message e)"

text \<open>\<^verbatim>\<open>console.log\<close>, \<^verbatim>\<open>console.warn\<close>, \<^verbatim>\<open>console.error\<close>.\<close>

datatype level = Log | Warn | Error

text \<open>
  An intercepted request, with what the library answers when the handler asks:
  \<^verbatim>\<open>request.url()\<close>, \<^verbatim>\<open>request.isInterceptResolutionHandled()\<close>, and whether
  \<^verbatim>\<open>request.abort()\<close> and \<^verbatim>\<open>request.continue()\<close> reject.
\<close>

record request =
  url :: string
  isInterceptResolutionHandled :: bool
  abort_rejects :: "jserror option"
  continue_rejects :: "jserror option"

text \<open>
  What the event loop delivers while the function is suspended: a \<^verbatim>\<open>"request"\<close> event of
  the page, or the rejection of the promise of \<^verbatim>\<open>page.goto\<close> (line 108).
\<close>

datatype event = RequestEvent request | GotoRejected jserror

text \<open>
  The calls the program makes on the outside world, its assignments to \<^verbatim>\<open>m3u8Link\<close> and
  the rejections of listeners nobody awaits, in the order of the steps that make them.
\<close>

datatype effect =
    Console level string
  | Launch bool "string list"
  | NewPage
  | SetUserAgent string
  | SetRequestInterception bool
  | OnRequest
  | Goto string string nat
  | SetTimeout nat
  | Assign string
  | LinkFoundResolver
  | ContinueCall request
  | AbortCall request
  | Close
  | UnhandledRejection jserror

text \<open>
  The environment of one call. \<open>events\<close> are the events the transport delivers, in
  delivery order, each with its time in milliseconds since the wait of line 127 began;
  \<open>close_ms\<close> is how long \<^verbatim>\<open>browser.close()\<close> stays pending.
\<close>

record env =
  launch_rejects :: "jserror option"
  newPage_rejects :: "jserror option"
  setUserAgent_rejects :: "jserror option"
  setRequestInterception_on_rejects :: "jserror option"
  events :: "(nat \<times> event) list"
  page_isClosed :: bool
  setRequestInterception_off_rejects :: "jserror option"
  close_ms :: nat
  close_rejects :: "jserror option"

section \<open>The state of one call and its statements\<close>

text \<open>
  The variables of \<^verbatim>\<open>findMinimalM3u8Link\<close> (lines 17 to 25): \<open>browser\<close> and \<open>page\<close> hold
  whether the variable is non-null, \<open>linkFound\<close> whether \<^verbatim>\<open>linkFoundPromise\<close> is resolved,
  \<open>listening\<close> whether the listeners of lines 49 and 110 are registered. \<open>clock\<close> and
  \<open>pending\<close> are the time and the events not yet delivered; \<open>trace\<close> collects the
  effects.
\<close>

record state =
  browser :: bool
  page :: bool
  m3u8Link :: "string option"
  linkFound :: bool
  listening :: bool
  clock :: nat
  pending :: "(nat \<times> event) list"
  trace :: "effect list"

text \<open>A statement runs on the state and either completes or throws.\<close>

type_synonym stmt = "state \<Rightarrow> jserror option \<times> state"

definition emit :: "effect \<Rightarrow> state \<Rightarrow> state" where
  "emit e s = s\<lparr>trace := trace s @ [e]\<rparr>"

definition skip :: stmt where
  "skip s = (None, s)"

definition console :: "level \<Rightarrow> string \<Rightarrow> stmt" where
  "console l m s = (None, emit (Console l m) s)"

text \<open>An awaited call of the library: the call is made, then it resolves or rejects.\<close>

definition call :: "effect \<Rightarrow> jserror option \<Rightarrow> stmt" where
  "call eff rejects s = (rejects, emit eff s)"

text \<open>Statements in sequence: the first throw ends the block.\<close>

fun block :: "stmt list \<Rightarrow> stmt" where
  "block [] s = (None, s)"
| "block (c # cs) s =
     (case c s of
        (Some e, s') \<Rightarrow> (Some e, s')
      | (None, s') \<Rightarrow> block cs s')"

definition try_catch :: "stmt \<Rightarrow> (jserror \<Rightarrow> stmt) \<Rightarrow> stmt" where
  "try_catch body handler s =
     (case body s of
        (None, s') \<Rightarrow> (None, s')
      | (Some e, s') \<Rightarrow> handler e s')"

text \<open>
  \<^verbatim>\<open>try { } catch (e) { } finally { }\<close>: the finally block always runs, and what it throws
  replaces what was pending.
\<close>

definition try_catch_finally :: "stmt \<Rightarrow> (jserror \<Rightarrow> stmt) \<Rightarrow> stmt \<Rightarrow> stmt" where
  "try_catch_finally body handler fin s =
     (case try_catch body handler s of
        (None, s') \<Rightarrow> fin s'
      | (Some e, s') \<Rightarrow>
          (case fin s' of
             (None, s'') \<Rightarrow> (Some e, s'')
           | (Some e', s'') \<Rightarrow> (Some e', s'')))"

text \<open>JavaScript truthiness of a value that is null or a string: \<^verbatim>\<open>""\<close> is falsy.\<close>

fun truthy :: "string option \<Rightarrow> bool" where
  "truthy None = False"
| "truthy (Some v) = (v \<noteq> [])"

text \<open>\<^verbatim>\<open>String.prototype.endsWith\<close>: the last characters of the string are the search string.\<close>

definition endsWith :: "string \<Rightarrow> string \<Rightarrow> bool" where
  "endsWith str searchString =
     (length searchString \<le> length str \<and>
      drop (length str - length searchString) str = searchString)"

section \<open>The request handler (lines 49 to 101)\<close>

definition assign_m3u8Link :: "string \<Rightarrow> stmt" where
  "assign_m3u8Link requestUrl s = (None, emit (Assign requestUrl) (s\<lparr>m3u8Link := Some requestUrl\<rparr>))"

definition linkFoundResolver :: stmt where
  "linkFoundResolver s = (None, emit LinkFoundResolver (s\<lparr>linkFound := True\<rparr>))"

text \<open>
  The handler is an async function. Its body up to the first \<^verbatim>\<open>await\<close> runs within the
  event that delivers the request: the test of line 54, the assignment of line 56 and the
  call of \<^verbatim>\<open>linkFoundResolver\<close> come before any \<^verbatim>\<open>await\<close>, and so does the call of
  \<^verbatim>\<open>continue()\<close> or \<^verbatim>\<open>abort()\<close> in the other two branches. What follows an \<^verbatim>\<open>await\<close>
  reads and writes only the request and the console, so the handler of one event is one
  step of the model; the effects that follow an \<^verbatim>\<open>await\<close> are recorded with that step,
  ahead of what other code does while the handler is suspended.
\<close>

definition request_handler :: "env \<Rightarrow> request \<Rightarrow> stmt" where
  "request_handler env request s =
     (let currentPage = page s; requestUrl = url request in
      if endsWith requestUrl ''.m3u8'' \<and> \<not> truthy (m3u8Link s) then
        block
          [console Log (''---> Found potential M3U8 request: '' @ requestUrl),
           assign_m3u8Link requestUrl,
           linkFoundResolver,
           try_catch
             (if currentPage \<and> \<not> page_isClosed env
              then call (SetRequestInterception False) (setRequestInterception_off_rejects env)
              else skip)
             (\<lambda>e. console Warn
                (''Warning: Could not disable request interception during cleanup. '' @ message e)),
           try_catch
             (if \<not> isInterceptResolutionHandled request
              then call (AbortCall request) (abort_rejects request)
              else skip)
             (\<lambda>e. skip)] s
      else if \<not> truthy (m3u8Link s) then
        try_catch
          (if \<not> isInterceptResolutionHandled request
           then call (ContinueCall request) (continue_rejects request)
           else skip)
          (\<lambda>e. skip) s
      else
        try_catch
          (if \<not> isInterceptResolutionHandled request
           then call (AbortCall request) (abort_rejects request)
           else skip)
          (\<lambda>e. skip) s)"

text \<open>The \<^verbatim>\<open>.catch\<close> callback of \<^verbatim>\<open>page.goto\<close> (lines 110 to 121).\<close>

definition goto_catch :: "jserror \<Rightarrow> stmt" where
  "goto_catch e s =
     (if \<not> truthy (m3u8Link s)
      then console Warn (''Navigation potentially failed before M3U8 link found: '' @ message e) s
      else console Log ''Navigation ended (or timed out), but M3U8 link was already found.'' s)"

text \<open>
  The event loop runs the listener of an event. A listener is an async function of its
  own: what it throws rejects its own promise, which nobody awaits.
\<close>

definition listener :: "env \<Rightarrow> event \<Rightarrow> stmt" where
  "listener env ev =
     (case ev of
        RequestEvent request \<Rightarrow> request_handler env request
      | GotoRejected e \<Rightarrow> goto_catch e)"

definition deliver :: "env \<Rightarrow> event \<Rightarrow> state \<Rightarrow> state" where
  "deliver env ev s =
     (case listener env ev s of
        (None, s') \<Rightarrow> s'
      | (Some e, s') \<Rightarrow> emit (UnhandledRejection e) s')"

fun deliver_all :: "env \<Rightarrow> event list \<Rightarrow> state \<Rightarrow> state" where
  "deliver_all env [] s = s"
| "deliver_all env (ev # evs) s = deliver_all env evs (deliver env ev s)"

section \<open>findMinimalM3u8Link (lines 11 to 159)\<close>

definition findTimeout :: nat where
  "findTimeout = 10000"

definition targetUrl :: string where
  "targetUrl = ''https://www.bloomberg.com/live/us''"

text \<open>
  \<^verbatim>\<open>await Promise.race([linkFoundPromise, timeout])\<close> (lines 127 to 130): the function
  stays suspended, the event loop delivering events, until \<^verbatim>\<open>linkFoundPromise\<close> is
  resolved or the timer of \<open>findTimeout\<close> ms fires.
\<close>

fun await_race :: "env \<Rightarrow> (nat \<times> event) list \<Rightarrow> state \<Rightarrow> state" where
  "await_race env [] s =
     (if linkFound s then s\<lparr>pending := []\<rparr>
      else s\<lparr>clock := findTimeout, pending := []\<rparr>)"
| "await_race env ((t, ev) # evs) s =
     (if linkFound s then s\<lparr>pending := (t, ev) # evs\<rparr>
      else if findTimeout \<le> t then s\<lparr>clock := findTimeout, pending := (t, ev) # evs\<rparr>
      else await_race env evs (deliver env ev (s\<lparr>clock := t\<rparr>)))"

definition promise_race :: "env \<Rightarrow> stmt" where
  "promise_race env s = (None, await_race env (pending s) s)"

text \<open>
  \<^verbatim>\<open>await browser.close()\<close> (line 144): while the call is pending the listeners stay
  registered, and the events of the next \<open>close_ms\<close> milliseconds are delivered to them.
\<close>

definition browser_close :: "env \<Rightarrow> stmt" where
  "browser_close env s =
     (let s1 = emit Close s;
          during = takeWhile (\<lambda>(t, ev). t < clock s1 + close_ms env) (pending s1);
          s2 = (if listening s1
                then (deliver_all env (map snd during) s1)\<lparr>pending := drop (length during) (pending s1)\<rparr>
                else s1)
      in (close_rejects env, s2))"

definition on_request :: stmt where
  "on_request s = (None, emit OnRequest (s\<lparr>listening := True\<rparr>))"

definition launch :: "env \<Rightarrow> stmt" where
  "launch env s =
     (case call (Launch True [''--no-sandbox'', ''--disable-setuid-sandbox'',
                              ''--disable-blink-features=AutomationControlled''])
                (launch_rejects env) s of
        (None, s') \<Rightarrow> (None, s'\<lparr>browser := True\<rparr>)
      | (Some e, s') \<Rightarrow> (Some e, s'))"

definition newPage :: "env \<Rightarrow> stmt" where
  "newPage env s =
     (case call NewPage (newPage_rejects env) s of
        (None, s') \<Rightarrow> (None, s'\<lparr>page := True\<rparr>)
      | (Some e, s') \<Rightarrow> (Some e, s'))"

definition userAgent :: string where
  "userAgent = ''Mozilla/5.0 (Windows NT 10.0; Win64; x64) AppleWebKit/537.36 (KHTML, like Gecko) Chrome/108.0.0.0 Safari/537.36''"

text \<open>The body of the \<^verbatim>\<open>try\<close> (lines 30 to 130).\<close>

definition try_body :: "env \<Rightarrow> string \<Rightarrow> stmt" where
  "try_body env u =
     block
       [console Log ''Launching browser...'',
        launch env,
        newPage env,
        call (SetUserAgent userAgent) (setUserAgent_rejects env),
        console Log ''Setting up network request interception...'',
        call (SetRequestInterception True) (setRequestInterception_on_rejects env),
        on_request,
        console Log (''Navigating to '' @ u @ ''... (will stop once .m3u8 is found or after timeout)''),
        call (Goto u ''domcontentloaded'' findTimeout) None,
        console Log ''Waiting up to 10 seconds for the M3U8 link...'',
        call (SetTimeout findTimeout) None,
        promise_race env]"

text \<open>The \<^verbatim>\<open>catch\<close> (lines 134 to 139).\<close>

definition catch_block :: "jserror \<Rightarrow> stmt" where
  "catch_block error s =
     (if \<not> truthy (m3u8Link s)
      then console Error (''An error occurred during setup or navigation: '' @ error_toString error) s
      else skip s)"

text \<open>The \<^verbatim>\<open>finally\<close> (lines 140 to 148).\<close>

definition finally_block :: "env \<Rightarrow> stmt" where
  "finally_block env s =
     (if browser s
      then block
             [console Log ''Closing browser (finally block)...'',
              browser_close env,
              (\<lambda>s. (None, s\<lparr>browser := False, page := False\<rparr>))] s
      else skip s)"

text \<open>
  The final report (lines 151 to 157). The two messages start with a line feed and an
  emoji (U+2705, U+274C), written here as their UTF-8 bytes.
\<close>

definition final_report :: stmt where
  "final_report s =
     (case m3u8Link s of
        None \<Rightarrow>
          console Log ([CHR 0x0A, CHR 0xE2, CHR 0x9D, CHR 0x8C]
                       @ '' M3U8 link not detected within 10 seconds.'') s
      | Some l \<Rightarrow>
          if l \<noteq> []
          then console Log ([CHR 0x0A, CHR 0xE2, CHR 0x9C, CHR 0x85]
                            @ '' Successfully extracted M3U8 Link:'' @ [CHR 0x0A] @ l @ [CHR 0x0A]) s
          else console Log ([CHR 0x0A, CHR 0xE2, CHR 0x9D, CHR 0x8C]
                            @ '' M3U8 link not detected within 10 seconds.'') s)"

definition init :: "env \<Rightarrow> state" where
  "init env =
     \<lparr>browser = False, page = False, m3u8Link = None, linkFound = False,
      listening = False, clock = 0, pending = events env, trace = []\<rparr>"

text \<open>
  The function: \<open>Inr\<close> is the value it returns (\<open>None\<close> is \<^verbatim>\<open>null\<close>), \<open>Inl\<close> the error
  its promise rejects with; the second component is the trace of its effects.
\<close>

definition findMinimalM3u8Link :: "env \<Rightarrow> string option \<Rightarrow> (jserror + string option) \<times> effect list" where
  "findMinimalM3u8Link env u =
     (if \<not> truthy u
      then (Inr None, [Console Error ''Error: URL is required.''])
      else
        (case block
                [console Log (''Attempting to scrape: '' @ the u),
                 try_catch_finally (try_body env (the u)) catch_block (finally_block env),
                 final_report] (init env) of
           (Some e, s) \<Rightarrow> (Inl e, trace s)
         | (None, s) \<Rightarrow> (Inr (m3u8Link s), trace s)))"

section \<open>The route GET /scrape (lines 7 to 166)\<close>

text \<open>
  \<^verbatim>\<open>res.send({link: m3u8Link})\<close>: Express answers with status 200 and the object as JSON.
  When the awaited call rejects, the handler's promise rejects and line 163 is not
  reached.
\<close>

datatype response = Response (status: nat) (link: "string option")

definition scrape :: "env \<Rightarrow> (jserror + response) \<times> effect list" where
  "scrape env =
     (case findMinimalM3u8Link env (Some targetUrl) of
        (Inl e, tr) \<Rightarrow> (Inl e, tr)
      | (Inr l, tr) \<Rightarrow> (Inr (Response 200 l), tr))"

section \<open>Vocabulary of the properties\<close>

text \<open>The effects a statement adds to the trace.\<close>

definition effects_of :: "stmt \<Rightarrow> state \<Rightarrow> effect list" where
  "effects_of c s = drop (length (trace s)) (trace (snd (c s)))"

text \<open>The set-up of lines 32 to 47 succeeds when none of its four awaited calls rejects.\<close>

definition setup_succeeds :: "env \<Rightarrow> bool" where
  "setup_succeeds env =
     (launch_rejects env = None \<and> newPage_rejects env = None \<and>
      setUserAgent_rejects env = None \<and> setRequestInterception_on_rejects env = None)"

text \<open>The URLs of the requests among some events, in order.\<close>

fun request_urls :: "event list \<Rightarrow> string list" where
  "request_urls [] = []"
| "request_urls (RequestEvent r # evs) = url r # request_urls evs"
| "request_urls (GotoRejected e # evs) = request_urls evs"

text \<open>The URL of the first request among some events whose URL ends in \<^verbatim>\<open>.m3u8\<close>.\<close>

definition first_manifest :: "event list \<Rightarrow> string option" where
  "first_manifest evs = find (\<lambda>x. endsWith x ''.m3u8'') (request_urls evs)"

text \<open>
  The events delivered before the timer of \<open>findTimeout\<close> ms fires, and those delivered
  after it while \<^verbatim>\<open>browser.close()\<close> is pending.
\<close>

definition before_deadline :: "(nat \<times> event) list \<Rightarrow> (nat \<times> event) list" where
  "before_deadline tevs = takeWhile (\<lambda>(t, ev). t < findTimeout) tevs"

definition after_deadline :: "(nat \<times> event) list \<Rightarrow> (nat \<times> event) list" where
  "after_deadline tevs = dropWhile (\<lambda>(t, ev). t < findTimeout) tevs"

definition during_late_close :: "env \<Rightarrow> (nat \<times> event) list" where
  "during_late_close env =
     takeWhile (\<lambda>(t, ev). t < findTimeout + close_ms env) (after_deadline (events env))"

text \<open>The time of the first request among some timed events whose URL ends in \<^verbatim>\<open>.m3u8\<close>.\<close>

fun first_capture_time :: "(nat \<times> event) list \<Rightarrow> nat option" where
  "first_capture_time [] = None"
| "first_capture_time ((t, RequestEvent r) # tevs) =
     (if endsWith (url r) ''.m3u8'' then Some t else first_capture_time tevs)"
| "first_capture_time ((t, GotoRejected e) # tevs) = first_capture_time tevs"

text \<open>The values assigned to \<^verbatim>\<open>m3u8Link\<close> in a trace, in order.\<close>

fun assigned :: "effect list \<Rightarrow> string list" where
  "assigned [] = []"
| "assigned (Assign l # tr) = l # assigned tr"
| "assigned (e # tr) = assigned tr"

text \<open>The calls of \<^verbatim>\<open>request.continue()\<close> and \<^verbatim>\<open>request.abort()\<close> in a trace.\<close>

fun resolution_calls :: "effect list \<Rightarrow> effect list" where
  "resolution_calls [] = []"
| "resolution_calls (ContinueCall r # tr) = ContinueCall r # resolution_calls tr"
| "resolution_calls (AbortCall r # tr) = AbortCall r # resolution_calls tr"
| "resolution_calls (e # tr) = resolution_calls tr"

text \<open>The effects of a trace after the first assignment to \<^verbatim>\<open>m3u8Link\<close>.\<close>

fun after_capture :: "effect list \<Rightarrow> effect list" where
  "after_capture [] = []"
| "after_capture (Assign l # tr) = tr"
| "after_capture (e # tr) = after_capture tr"

text \<open>The requests on which \<^verbatim>\<open>request.continue()\<close> is called in a trace.\<close>

fun continue_calls :: "effect list \<Rightarrow> request list" where
  "continue_calls [] = []"
| "continue_calls (ContinueCall r # tr) = r # continue_calls tr"
| "continue_calls (e # tr) = continue_calls tr"

text \<open>The errors a listener threw in a trace.\<close>

fun unhandled :: "effect list \<Rightarrow> jserror list" where
  "unhandled [] = []"
| "unhandled (UnhandledRejection e # tr) = e # unhandled tr"
| "unhandled (e # tr) = unhandled tr"

text \<open>A request is aborted in a trace when \<^verbatim>\<open>request.abort()\<close> was called and resolved.\<close>

definition request_aborted :: "request \<Rightarrow> effect list \<Rightarrow> bool" where
  "request_aborted r tr = (AbortCall r \<in> set tr \<and> abort_rejects r = None)"

text \<open>The lines written to the console at one level in a trace.\<close>

fun console_lines :: "level \<Rightarrow> effect list \<Rightarrow> string list" where
  "console_lines lv [] = []"
| "console_lines lv (Console lv' m # tr) =
     (if lv = lv' then m # console_lines lv tr else console_lines lv tr)"
| "console_lines lv (e # tr) = console_lines lv tr"

text \<open>The events that are a rejection of the navigation.\<close>

fun goto_rejected :: "event \<Rightarrow> bool" where
  "goto_rejected (GotoRejected e) = True"
| "goto_rejected (RequestEvent r) = False"

definition without_navigation_errors :: "env \<Rightarrow> env" where
  "without_navigation_errors env =
     env\<lparr>events := filter (\<lambda>(t, ev). \<not> goto_rejected ev) (events env)\<rparr>"

section \<open>Example sessions\<close>

text \<open>A request the library lets the handler resolve either way.\<close>

definition plain_request :: "string \<Rightarrow> request" where
  "plain_request x =
     \<lparr>url = x, isInterceptResolutionHandled = False, abort_rejects = None, continue_rejects = None\<rparr>"

text \<open>A session in which every call resolves and the page issues no request.\<close>

definition quiet_env :: env where
  "quiet_env =
     \<lparr>launch_rejects = None, newPage_rejects = None, setUserAgent_rejects = None,
      setRequestInterception_on_rejects = None, events = [], page_isClosed = False,
      setRequestInterception_off_rejects = None, close_ms = 100, close_rejects = None\<rparr>"

text \<open>The page requests a script, then two manifests 50 ms apart.\<close>

definition two_manifests_env :: env where
  "two_manifests_env =
     quiet_env\<lparr>events :=
       [(400, RequestEvent (plain_request ''https://cdn.example.com/app.js'')),
        (500, RequestEvent (plain_request ''https://cdn.example.com/live/a.m3u8'')),
        (550, RequestEvent (plain_request ''https://cdn.example.com/live/b.m3u8''))]\<rparr>"

text \<open>
  After the capture has switched interception off (line 66), the page requests a
  segment: the library rejects \<^verbatim>\<open>abort()\<close> on a request that is not intercepted.
\<close>

definition segment_request :: request where
  "segment_request =
     \<lparr>url = ''https://cdn.example.com/live/seg1.ts'', isInterceptResolutionHandled = False,
      abort_rejects = Some (JSError ''Error'' ''Request Interception is not enabled!''),
      continue_rejects = Some (JSError ''Error'' ''Request Interception is not enabled!'')\<rparr>"

definition interception_off_env :: env where
  "interception_off_env =
     quiet_env\<lparr>events :=
       [(500, RequestEvent (plain_request ''https://cdn.example.com/live/a.m3u8'')),
        (520, RequestEvent segment_request)]\<rparr>"

text \<open>The manifest is requested 5 ms after the deadline, while the browser is closing.\<close>

definition late_manifest_env :: env where
  "late_manifest_env =
     quiet_env\<lparr>events :=
       [(10005, RequestEvent (plain_request ''https://cdn.example.com/live/a.m3u8''))]\<rparr>"

text \<open>The manifest is captured, then the navigation rejects while the browser is closing.\<close>

definition navigation_error_env :: env where
  "navigation_error_env =
     quiet_env\<lparr>events :=
       [(500, RequestEvent (plain_request ''https://cdn.example.com/live/a.m3u8'')),
        (530, GotoRejected (JSError ''Error'' ''Navigation failed because browser has disconnected!''))]\<rparr>"

text \<open>The manifest is captured, then \<^verbatim>\<open>browser.close()\<close> rejects.\<close>

definition close_rejects_env :: env where
  "close_rejects_env =
     quiet_env\<lparr>events :=
       [(500, RequestEvent (plain_request ''https://cdn.example.com/live/a.m3u8''))],
      close_rejects := Some (JSError ''Error'' ''Protocol error (Browser.close): Target closed.'')\<rparr>"

text \<open>No manifest is requested, and \<^verbatim>\<open>browser.close()\<close> rejects after the deadline.\<close>

definition timeout_close_rejects_env :: env where
  "timeout_close_rejects_env =
     quiet_env\<lparr>close_rejects := Some (JSError ''Error'' ''Protocol error (Browser.close): Target closed.'')\<rparr>"

text \<open>
  The only manifest request carries a query string after the extension, and the query
  string itself ends in \<^verbatim>\<open>.m3u8\<close>.
\<close>

definition query_manifest_env :: env where
  "query_manifest_env =
     quiet_env\<lparr>events :=
       [(500, RequestEvent (plain_request ''https://cdn.example.com/live/a.m3u8?next=b.m3u8''))]\<rparr>"

section \<open>Auxiliary definitions of the proofs\<close>

text \<open>The effects of the capturing branch of the handler (lines 55 to 81).\<close>

definition capture_effects :: "env \<Rightarrow> request \<Rightarrow> bool \<Rightarrow> effect list" where
  "capture_effects env r currentPage =
     [Console Log (''---> Found potential M3U8 request: '' @ url r), Assign (url r), LinkFoundResolver]
     @ (if currentPage \<and> \<not> page_isClosed env
        then SetRequestInterception False #
             (case setRequestInterception_off_rejects env of
                None \<Rightarrow> []
              | Some e \<Rightarrow> [Console Warn (''Warning: Could not disable request interception during cleanup. '' @ message e)])
        else [])
     @ (if isInterceptResolutionHandled r then [] else [AbortCall r])"

text \<open>The effects of the \<^verbatim>\<open>try\<close> body up to the wait, when no call rejects.\<close>

definition setup_effects :: "string \<Rightarrow> effect list" where
  "setup_effects v =
     [Console Log ''Launching browser...'',
      Launch True [''--no-sandbox'', ''--disable-setuid-sandbox'',
                   ''--disable-blink-features=AutomationControlled''],
      NewPage,
      SetUserAgent userAgent,
      Console Log ''Setting up network request interception...'',
      SetRequestInterception True,
      OnRequest,
      Console Log (''Navigating to '' @ v @ ''... (will stop once .m3u8 is found or after timeout)''),
      Goto v ''domcontentloaded'' findTimeout,
      Console Log ''Waiting up to 10 seconds for the M3U8 link...'',
      SetTimeout findTimeout]"

text \<open>The state in which the wait of line 127 begins.\<close>

definition start_state :: "env \<Rightarrow> string \<Rightarrow> state" where
  "start_state env v =
     (init env)\<lparr>browser := True, page := True, listening := True,
                 trace := Console Log (''Attempting to scrape: '' @ v) # setup_effects v\<rparr>"

text \<open>The state in which the wait ends.\<close>

definition race_state :: "env \<Rightarrow> string \<Rightarrow> state" where
  "race_state env v = await_race env (events env) (start_state env v)"

text \<open>The state when \<^verbatim>\<open>browser.close()\<close> settles.\<close>

definition close_state :: "env \<Rightarrow> string \<Rightarrow> state" where
  "close_state env v =
     (let s1 = race_state env v in
      deliver_all env
        (map snd (takeWhile (\<lambda>(t, ev). t < clock s1 + close_ms env) (pending s1)))
        (s1\<lparr>trace := trace s1 @ [Console Log ''Closing browser (finally block)...'', Close]\<rparr>))"

text \<open>The console entry of the final report.\<close>

definition report_entry :: "string option \<Rightarrow> effect" where
  "report_entry m =
     (if truthy m
      then Console Log ([CHR 0x0A, CHR 0xE2, CHR 0x9C, CHR 0x85]
                        @ '' Successfully extracted M3U8 Link:'' @ [CHR 0x0A] @ the m @ [CHR 0x0A])
      else Console Log ([CHR 0x0A, CHR 0xE2, CHR 0x9D, CHR 0x8C]
                        @ '' M3U8 link not detected within 10 seconds.''))"

text \<open>The calls made after the launch when one of them rejects, and the error it rejects with.\<close>

definition failed_setup_effects :: "env \<Rightarrow> effect list \<times> jserror" where
  "failed_setup_effects env =
     (case newPage_rejects env of
        Some e \<Rightarrow> ([NewPage], e)
      | None \<Rightarrow>
          (case setUserAgent_rejects env of
             Some e \<Rightarrow> ([NewPage, SetUserAgent userAgent], e)
           | None \<Rightarrow>
               ([NewPage, SetUserAgent userAgent,
                 Console Log ''Setting up network request interception...'',
                 SetRequestInterception True],
                the (setRequestInterception_on_rejects env))))"

text \<open>The invariant of the trace: the assignments are those the variable shows, no \<^verbatim>\<open>continue\<close> call follows the capture, and no listener threw.\<close>

definition tidy :: "state \<Rightarrow> bool" where
  "tidy s =
     (assigned (trace s) = (case m3u8Link s of None \<Rightarrow> [] | Some l \<Rightarrow> [l]) \<and>
      m3u8Link s \<noteq> Some [] \<and>
      continue_calls (after_capture (trace s)) = [] \<and>
      unhandled (trace s) = [])"

section \<open>The handler and the event loop\<close>

lemma endsWith_suffix: "endsWith str searchString \<longleftrightarrow> suffix searchString str"
proof
  assume "endsWith str searchString"
  then have "str = take (length str - length searchString) str @ searchString"
    by (metis append_take_drop_id endsWith_def)
  then show "suffix searchString str"
    by (metis suffixI)
next
  assume "suffix searchString str"
  then obtain p where "str = p @ searchString"
    by (auto simp: suffix_def)
  then show "endsWith str searchString"
    by (simp add: endsWith_def)
qed

lemma emit_fields [simp]:
  "browser (emit e s) = browser s" "page (emit e s) = page s" "m3u8Link (emit e s) = m3u8Link s"
  "linkFound (emit e s) = linkFound s" "listening (emit e s) = listening s" "clock (emit e s) = clock s"
  "pending (emit e s) = pending s" "trace (emit e s) = trace s @ [e]"
  by (simp_all add: emit_def)

lemma resolution_step:
  "try_catch
          (if \<not> isInterceptResolutionHandled r
           then call eff rej
           else skip)
          (\<lambda>e. skip) s = (None, if isInterceptResolutionHandled r then s else emit eff s)"
  by (simp add: try_catch_def call_def skip_def split: option.splits)

lemma request_handler_abort:
  "truthy (m3u8Link s) \<Longrightarrow>
   request_handler env r s = (None, if isInterceptResolutionHandled r then s else emit (AbortCall r) s)"
  by (simp add: request_handler_def resolution_step Let_def)

lemma request_handler_continue:
  "\<not> truthy (m3u8Link s) \<Longrightarrow> \<not> endsWith (url r) ''.m3u8'' \<Longrightarrow>
   request_handler env r s = (None, if isInterceptResolutionHandled r then s else emit (ContinueCall r) s)"
  by (simp add: request_handler_def resolution_step Let_def)

lemma request_handler_capture:
  "\<not> truthy (m3u8Link s) \<Longrightarrow> endsWith (url r) ''.m3u8'' \<Longrightarrow>
   request_handler env r s =
     (None, s\<lparr>m3u8Link := Some (url r), linkFound := True,
              trace := trace s @ capture_effects env r (page s)\<rparr>)"
  by (simp add: request_handler_def resolution_step Let_def capture_effects_def try_catch_def
      call_def skip_def
      console_def assign_m3u8Link_def linkFoundResolver_def emit_def split: option.splits)

lemma request_handler_cases:
  "request_handler env r s =
     (None,
      if truthy (m3u8Link s) then (if isInterceptResolutionHandled r then s else emit (AbortCall r) s)
      else if endsWith (url r) ''.m3u8''
      then s\<lparr>m3u8Link := Some (url r), linkFound := True,
              trace := trace s @ capture_effects env r (page s)\<rparr>
      else (if isInterceptResolutionHandled r then s else emit (ContinueCall r) s))"
proof (cases "truthy (m3u8Link s)")
  case True
  then show ?thesis
    using request_handler_abort [OF True, of env r] by simp
next
  case False
  show ?thesis
  proof (cases "endsWith (url r) ''.m3u8''")
    case True
    show ?thesis
      using request_handler_capture [OF False True, of env] False True by simp
  next
    case no: False
    show ?thesis
      using request_handler_continue [OF False no, of env] False no by simp
  qed
qed

lemma goto_catch_cases:
  "goto_catch e s =
     (None,
      emit (if truthy (m3u8Link s)
            then Console Log ''Navigation ended (or timed out), but M3U8 link was already found.''
            else Console Warn (''Navigation potentially failed before M3U8 link found: '' @ message e)) s)"
  by (simp add: goto_catch_def console_def)

lemma listener_never_throws: "fst (listener env ev s) = None"
  by (cases ev) (simp_all add: listener_def request_handler_cases goto_catch_cases)

lemma deliver_listener: "deliver env ev s = snd (listener env ev s)"
  using listener_never_throws [of env ev s]
  by (cases "listener env ev s") (simp add: deliver_def)

lemma endsWith_nonempty: "endsWith x ''.m3u8'' \<Longrightarrow> x \<noteq> []"
  by (auto simp: endsWith_def)

lemma deliver_request:
  "deliver env (RequestEvent r) s =
     (if truthy (m3u8Link s) then (if isInterceptResolutionHandled r then s else emit (AbortCall r) s)
      else if endsWith (url r) ''.m3u8''
      then s\<lparr>m3u8Link := Some (url r), linkFound := True,
              trace := trace s @ capture_effects env r (page s)\<rparr>
      else (if isInterceptResolutionHandled r then s else emit (ContinueCall r) s))"
  by (simp add: deliver_listener listener_def request_handler_cases)

lemma deliver_goto:
  "deliver env (GotoRejected e) s =
      emit (if truthy (m3u8Link s)
            then Console Log ''Navigation ended (or timed out), but M3U8 link was already found.''
            else Console Warn (''Navigation potentially failed before M3U8 link found: '' @ message e)) s"
  by (simp add: deliver_listener listener_def goto_catch_cases)

lemma deliver_frame [simp]:
  "browser (deliver env ev s) = browser s" "page (deliver env ev s) = page s"
  "listening (deliver env ev s) = listening s" "clock (deliver env ev s) = clock s"
  "pending (deliver env ev s) = pending s"
  by (cases ev; simp add: deliver_request deliver_goto)+

lemma deliver_link:
  "m3u8Link (deliver env ev s) =
     (if truthy (m3u8Link s) then m3u8Link s
      else case first_manifest [ev] of Some l \<Rightarrow> Some l | None \<Rightarrow> m3u8Link s)"
  by (cases ev) (simp_all add: deliver_request deliver_goto first_manifest_def)

lemma deliver_linkFound:
  "linkFound (deliver env ev s) = (linkFound s \<or> (\<not> truthy (m3u8Link s) \<and> first_manifest [ev] \<noteq> None))"
  by (cases ev) (simp_all add: deliver_request deliver_goto first_manifest_def)

lemma first_manifest_truthy: "first_manifest evs = Some l \<Longrightarrow> truthy (Some l)"
  by (auto simp: first_manifest_def find_Some_iff endsWith_def)

lemma first_manifest_endsWith: "first_manifest evs = Some l \<Longrightarrow> endsWith l ''.m3u8''"
  by (auto simp: first_manifest_def find_Some_iff)

lemma first_manifest_Cons:
  "first_manifest (ev # evs) = (case first_manifest [ev] of Some l \<Rightarrow> Some l | None \<Rightarrow> first_manifest evs)"
  by (cases ev) (simp_all add: first_manifest_def)

lemma first_manifest_Nil [simp]: "first_manifest [] = None"
  by (simp add: first_manifest_def)

lemma first_manifest_append:
  "first_manifest (xs @ ys) = (case first_manifest xs of Some l \<Rightarrow> Some l | None \<Rightarrow> first_manifest ys)"
proof (induction xs)
  case Nil
  then show ?case by simp
next
  case (Cons ev xs)
  have "first_manifest ((ev # xs) @ ys) =
        (case first_manifest [ev] of Some l \<Rightarrow> Some l | None \<Rightarrow> first_manifest (xs @ ys))"
    using first_manifest_Cons [of ev "xs @ ys"] by simp
  then show ?case
    by (simp add: Cons.IH first_manifest_Cons [of ev xs] split: option.splits)
qed

lemma deliver_all_frame [simp]:
  "browser (deliver_all env evs s) = browser s" "page (deliver_all env evs s) = page s"
  "listening (deliver_all env evs s) = listening s" "clock (deliver_all env evs s) = clock s"
  "pending (deliver_all env evs s) = pending s"
  by (induction evs arbitrary: s; simp)+

lemma deliver_all_link:
  "m3u8Link (deliver_all env evs s) =
     (if truthy (m3u8Link s) then m3u8Link s
      else case first_manifest evs of Some l \<Rightarrow> Some l | None \<Rightarrow> m3u8Link s)"
proof (induction evs arbitrary: s)
  case Nil
  then show ?case by simp
next
  case (Cons ev evs)
  show ?case
    using first_manifest_truthy [of "[ev]"]
    by (simp add: Cons.IH deliver_link first_manifest_Cons [of ev evs] split: option.splits)
qed

lemma await_race_frame [simp]:
  "browser (await_race env tevs s) = browser s" "page (await_race env tevs s) = page s"
  "listening (await_race env tevs s) = listening s"
  by (induction env tevs s rule: await_race.induct; simp)+

lemma await_race_found:
  "linkFound s \<Longrightarrow> await_race env tevs s = s\<lparr>pending := tevs\<rparr>"
  by (cases tevs) auto

lemma first_capture_time_manifest:
  "first_capture_time tevs = None \<longleftrightarrow> first_manifest (map snd tevs) = None"
  by (induction tevs rule: first_capture_time.induct) (simp_all add: first_manifest_def)

lemma before_deadline_Cons:
  "before_deadline ((t, ev) # tevs) = (if t < findTimeout then (t, ev) # before_deadline tevs else [])"
  by (simp add: before_deadline_def)

lemma after_deadline_Cons:
  "after_deadline ((t, ev) # tevs) = (if t < findTimeout then after_deadline tevs else (t, ev) # tevs)"
  by (simp add: after_deadline_def)

lemma before_deadline_Nil [simp]: "before_deadline [] = []"
  by (simp add: before_deadline_def)

lemma after_deadline_Nil [simp]: "after_deadline [] = []"
  by (simp add: after_deadline_def)

lemma await_race_link:
  "\<not> linkFound s \<Longrightarrow> m3u8Link s = None \<Longrightarrow>
   m3u8Link (await_race env tevs s) = first_manifest (map snd (before_deadline tevs)) \<and>
   linkFound (await_race env tevs s) = (first_manifest (map snd (before_deadline tevs)) \<noteq> None)"
proof (induction env tevs s rule: await_race.induct)
  case (1 env s)
  then show ?case by simp
next
  case (2 env t ev evs s)
  show ?case
  proof (cases "findTimeout \<le> t")
    case True
    with 2 show ?thesis by (simp add: before_deadline_Cons)
  next
    case False
    let ?s' = "deliver env ev (s\<lparr>clock := t\<rparr>)"
    show ?thesis
    proof (cases "first_manifest [ev]")
      case None
      then have "\<not> linkFound ?s'" "m3u8Link ?s' = None"
        using 2 by (simp_all add: deliver_link deliver_linkFound)
      then show ?thesis
        using 2 False None by (simp add: before_deadline_Cons first_manifest_Cons [of ev "map snd (before_deadline evs)"])
    next
      case (Some l)
      then have "linkFound ?s'" "m3u8Link ?s' = Some l"
        using 2 by (simp_all add: deliver_link deliver_linkFound)
      then show ?thesis
        using 2 False Some by (simp add: before_deadline_Cons first_manifest_Cons [of ev "map snd (before_deadline evs)"] await_race_found)
    qed
  qed
qed

lemma await_race_deadline:
  "\<not> linkFound s \<Longrightarrow> m3u8Link s = None \<Longrightarrow>
   first_manifest (map snd (before_deadline tevs)) = None \<Longrightarrow>
   pending (await_race env tevs s) = after_deadline tevs \<and> clock (await_race env tevs s) = findTimeout"
proof (induction env tevs s rule: await_race.induct)
  case (1 env s)
  then show ?case by simp
next
  case (2 env t ev evs s)
  show ?case
  proof (cases "findTimeout \<le> t")
    case True
    with 2 show ?thesis by (simp add: after_deadline_Cons)
  next
    case False
    let ?s' = "deliver env ev (s\<lparr>clock := t\<rparr>)"
    from 2(4) False have none: "first_manifest [ev] = None" "first_manifest (map snd (before_deadline evs)) = None"
      by (simp_all add: before_deadline_Cons first_manifest_Cons [of ev "map snd (before_deadline evs)"] split: option.splits)
    then have "\<not> linkFound ?s'" "m3u8Link ?s' = None"
      using 2 by (simp_all add: deliver_link deliver_linkFound)
    then show ?thesis
      using 2 False none by (simp add: after_deadline_Cons)
  qed
qed

lemma await_race_clock:
  "\<not> linkFound s \<Longrightarrow> m3u8Link s = None \<Longrightarrow>
   clock (await_race env tevs s) =
     (case first_capture_time (before_deadline tevs) of Some t \<Rightarrow> t | None \<Rightarrow> findTimeout)"
proof (induction env tevs s rule: await_race.induct)
  case (1 env s)
  then show ?case by simp
next
  case (2 env t ev evs s)
  show ?case
  proof (cases "findTimeout \<le> t")
    case True
    with 2 show ?thesis by (simp add: before_deadline_Cons)
  next
    case False
    let ?s' = "deliver env ev (s\<lparr>clock := t\<rparr>)"
    show ?thesis
    proof (cases "first_manifest [ev]")
      case None
      then have "\<not> linkFound ?s'" "m3u8Link ?s' = None"
        using 2 by (simp_all add: deliver_link deliver_linkFound)
      moreover have "first_capture_time ((t, ev) # before_deadline evs) = first_capture_time (before_deadline evs)"
        using None by (cases ev) (simp_all add: first_manifest_def split: if_splits)
      ultimately show ?thesis
        using 2 False by (simp add: before_deadline_Cons)
    next
      case (Some l)
      then have "linkFound ?s'"
        using 2 by (simp_all add: deliver_link deliver_linkFound)
      moreover have "first_capture_time ((t, ev) # before_deadline evs) = Some t"
        using Some by (cases ev) (simp_all add: first_manifest_def split: if_splits)
      ultimately show ?thesis
        using 2 False by (simp add: before_deadline_Cons await_race_found)
    qed
  qed
qed

lemma try_body_ok:
  "setup_succeeds env \<Longrightarrow>
   try_body env v s =
     (None, await_race env (pending s)
              (s\<lparr>browser := True, page := True, listening := True,
                  trace := trace s @ setup_effects v\<rparr>))"
  by (simp add: setup_succeeds_def try_body_def console_def launch_def newPage_def call_def
      on_request_def promise_race_def emit_def setup_effects_def)

lemma result_setup_ok:
  assumes "setup_succeeds env" and "v \<noteq> []"
  shows "fst (findMinimalM3u8Link env (Some v)) =
     (case close_rejects env of
        Some e \<Rightarrow> Inl e
      | None \<Rightarrow> Inr (first_manifest (map snd (before_deadline (events env) @ during_late_close env))))"
proof (cases "first_manifest (map snd (before_deadline (events env)))")
  case None
  show ?thesis
    using assms None
    by (simp add: findMinimalM3u8Link_def try_catch_finally_def try_catch_def try_body_ok
        finally_block_def browser_close_def console_def final_report_def init_def Let_def
        await_race_link await_race_deadline deliver_all_link first_manifest_append during_late_close_def
        split: option.splits prod.splits)
next
  case (Some l)
  show ?thesis
    using assms Some first_manifest_truthy [OF Some]
    by (simp add: findMinimalM3u8Link_def try_catch_finally_def try_catch_def try_body_ok
        finally_block_def browser_close_def console_def final_report_def init_def Let_def
        await_race_link deliver_all_link first_manifest_append
        split: option.splits prod.splits)
qed

lemma final_report_entry: "final_report s = (None, emit (report_entry (m3u8Link s)) s)"
  by (cases "m3u8Link s") (simp_all add: final_report_def report_entry_def console_def)

lemma run_setup_ok:
  assumes "setup_succeeds env" and "v \<noteq> []"
  shows "findMinimalM3u8Link env (Some v) =
     (case close_rejects env of
        Some e \<Rightarrow> (Inl e, trace (close_state env v))
      | None \<Rightarrow> (Inr (m3u8Link (close_state env v)),
                 trace (close_state env v) @ [report_entry (m3u8Link (close_state env v))]))"
  using assms
  by (simp add: findMinimalM3u8Link_def try_catch_finally_def try_catch_def try_body_ok
        finally_block_def browser_close_def console_def final_report_entry Let_def emit_def
        close_state_def race_state_def start_state_def init_def
        split: option.splits prod.splits)

lemma run_launch_fails:
  assumes "launch_rejects env = Some e" and "v \<noteq> []"
  shows "findMinimalM3u8Link env (Some v) =
     (Inr None,
      [Console Log (''Attempting to scrape: '' @ v),
       Console Log ''Launching browser...'',
       Launch True [''--no-sandbox'', ''--disable-setuid-sandbox'',
                    ''--disable-blink-features=AutomationControlled''],
       Console Error (''An error occurred during setup or navigation: '' @ error_toString e),
       report_entry None])"
  using assms
  by (simp add: findMinimalM3u8Link_def try_catch_finally_def try_catch_def try_body_def
      finally_block_def console_def final_report_entry emit_def launch_def call_def
      catch_block_def skip_def init_def)

lemma run_setup_fails:
  assumes "launch_rejects env = None" and "\<not> setup_succeeds env" and "v \<noteq> []"
  shows "findMinimalM3u8Link env (Some v) =
     (let tr = [Console Log (''Attempting to scrape: '' @ v),
                Console Log ''Launching browser...'',
                Launch True [''--no-sandbox'', ''--disable-setuid-sandbox'',
                             ''--disable-blink-features=AutomationControlled'']]
               @ fst (failed_setup_effects env)
               @ [Console Error (''An error occurred during setup or navigation: ''
                                 @ error_toString (snd (failed_setup_effects env))),
                  Console Log ''Closing browser (finally block)...'', Close]
      in case close_rejects env of
           Some e \<Rightarrow> (Inl e, tr)
         | None \<Rightarrow> (Inr None, tr @ [report_entry None]))"
  using assms
  by (auto simp add: findMinimalM3u8Link_def try_catch_finally_def try_catch_def try_body_def
      finally_block_def console_def final_report_entry emit_def launch_def newPage_def call_def
      catch_block_def skip_def init_def setup_succeeds_def failed_setup_effects_def
      browser_close_def Let_def
      split: option.splits)

lemma assigned_append [simp]: "assigned (xs @ ys) = assigned xs @ assigned ys"
  by (induction xs rule: assigned.induct) simp_all

lemma continue_calls_append [simp]: "continue_calls (xs @ ys) = continue_calls xs @ continue_calls ys"
  by (induction xs rule: continue_calls.induct) simp_all

lemma unhandled_append [simp]: "unhandled (xs @ ys) = unhandled xs @ unhandled ys"
  by (induction xs rule: unhandled.induct) simp_all

lemma resolution_calls_append [simp]:
  "resolution_calls (xs @ ys) = resolution_calls xs @ resolution_calls ys"
  by (induction xs rule: resolution_calls.induct) simp_all

lemma after_capture_append:
  "after_capture (xs @ ys) = (if assigned xs = [] then after_capture ys else after_capture xs @ ys)"
  by (induction xs rule: after_capture.induct) simp_all

lemma tidy_truthy: "tidy s \<Longrightarrow> truthy (m3u8Link s) \<longleftrightarrow> m3u8Link s \<noteq> None"
  by (cases "m3u8Link s") (auto simp: tidy_def)

lemma capture_effects_facts:
  "assigned (capture_effects env r p) = [url r]"
  "continue_calls (after_capture (capture_effects env r p)) = []"
  "unhandled (capture_effects env r p) = []"
  by (simp_all add: capture_effects_def split: option.splits)

lemma tidy_deliver: "tidy s \<Longrightarrow> tidy (deliver env ev s)"
proof (cases ev)
  case (RequestEvent r)
  assume t: "tidy s"
  show ?thesis
  proof (cases "m3u8Link s")
    case None
    with t show ?thesis
      by (auto simp: RequestEvent deliver_request tidy_def after_capture_append capture_effects_facts
          endsWith_def)
  next
    case (Some l)
    with t show ?thesis
      by (auto simp: RequestEvent deliver_request tidy_def after_capture_append)
  qed
next
  case (GotoRejected e)
  assume t: "tidy s"
  then show ?thesis
    by (cases "m3u8Link s") (auto simp: GotoRejected deliver_goto tidy_def after_capture_append)
qed

lemma tidy_deliver_all: "tidy s \<Longrightarrow> tidy (deliver_all env evs s)"
  by (induction evs arbitrary: s) (simp_all add: tidy_deliver)

lemma tidy_clock [simp]: "tidy (s\<lparr>clock := t\<rparr>) = tidy s"
  by (simp add: tidy_def)

lemma tidy_pending [simp]: "tidy (s\<lparr>pending := p\<rparr>) = tidy s"
  by (simp add: tidy_def)

lemma tidy_await_race: "tidy s \<Longrightarrow> tidy (await_race env tevs s)"
  by (induction env tevs s rule: await_race.induct) (simp_all add: tidy_deliver)

lemma tidy_start_state: "tidy (start_state env v)"
  by (simp add: tidy_def start_state_def init_def setup_effects_def)

lemma tidy_close_state: "tidy (close_state env v)"
proof -
  have "tidy (race_state env v)"
    by (simp add: race_state_def tidy_await_race tidy_start_state)
  then have "tidy ((race_state env v)\<lparr>trace := trace (race_state env v)
      @ [Console Log ''Closing browser (finally block)...'', Close]\<rparr>)"
    by (cases "m3u8Link (race_state env v)") (auto simp: tidy_def after_capture_append)
  then show ?thesis
    by (simp add: close_state_def Let_def tidy_deliver_all)
qed

lemma report_entry_facts:
  "assigned [report_entry m] = []" "continue_calls [report_entry m] = []"
  "unhandled [report_entry m] = []" "after_capture [report_entry m] = []"
  by (simp_all add: report_entry_def)

section \<open>Facts about whole calls\<close>

lemma truthy_targetUrl: "truthy (Some targetUrl)"
  by (simp add: targetUrl_def)

lemma truthy_cases: "truthy u \<Longrightarrow> (\<And>v. u = Some v \<Longrightarrow> v \<noteq> [] \<Longrightarrow> P) \<Longrightarrow> P"
  by (cases u) auto

lemma scrape_result:
  "fst (scrape env) =
     (case fst (findMinimalM3u8Link env (Some targetUrl)) of
        Inl e \<Rightarrow> Inl e
      | Inr l \<Rightarrow> Inr (Response 200 l))"
  by (simp add: scrape_def split: prod.splits sum.splits)

lemma failed_setup_effects_facts:
  "assigned (fst (failed_setup_effects env)) = []"
  "continue_calls (fst (failed_setup_effects env)) = []"
  "unhandled (fst (failed_setup_effects env)) = []"
  "after_capture (fst (failed_setup_effects env)) = []"
  by (simp_all add: failed_setup_effects_def split: option.splits)

lemma run_cases:
  obtains (no_url) "\<not> truthy u"
      and "findMinimalM3u8Link env u = (Inr None, [Console Error ''Error: URL is required.''])"
    | (launch_fails) v e where "u = Some v" and "v \<noteq> []" and "launch_rejects env = Some e"
    | (setup_fails) v where "u = Some v" and "v \<noteq> []" and "launch_rejects env = None"
        and "\<not> setup_succeeds env"
    | (setup_ok) v where "u = Some v" and "v \<noteq> []" and "setup_succeeds env"
proof (cases "truthy u")
  case False
  then show ?thesis
    using no_url by (simp add: findMinimalM3u8Link_def)
next
  case True
  then obtain v where v: "u = Some v" "v \<noteq> []"
    by (auto elim: truthy_cases)
  show ?thesis
  proof (cases "launch_rejects env")
    case (Some e)
    then show ?thesis using launch_fails v by blast
  next
    case None
    then show ?thesis
      using setup_fails [OF v] setup_ok [OF v] by blast
  qed
qed

lemma whole_trace_tidy:
  "continue_calls (after_capture (snd (findMinimalM3u8Link env u))) = [] \<and>
   unhandled (snd (findMinimalM3u8Link env u)) = [] \<and>
   (case fst (findMinimalM3u8Link env u) of
      Inr None \<Rightarrow> assigned (snd (findMinimalM3u8Link env u)) = []
    | Inr (Some l) \<Rightarrow> assigned (snd (findMinimalM3u8Link env u)) = [l]
    | Inl e \<Rightarrow> length (assigned (snd (findMinimalM3u8Link env u))) \<le> 1)"
proof (cases rule: run_cases [of u env])
  case no_url
  then show ?thesis by simp
next
  case (launch_fails v e)
  then show ?thesis
    by (simp add: run_launch_fails report_entry_def)
next
  case (setup_fails v)
  then show ?thesis
    by (simp add: run_setup_fails Let_def failed_setup_effects_facts after_capture_append
        report_entry_facts split: option.splits)
next
  case (setup_ok v)
  have t: "tidy (close_state env v)"
    by (rule tidy_close_state)
  show ?thesis
    using t setup_ok
    by (cases "m3u8Link (close_state env v)")
       (auto simp: run_setup_ok tidy_def after_capture_append report_entry_facts
          split: option.splits)
qed

lemma interception_off_run:
  "findMinimalM3u8Link interception_off_env (Some targetUrl) =
     (Inr (Some ''https://cdn.example.com/live/a.m3u8''),
      Console Log (''Attempting to scrape: '' @ targetUrl) # setup_effects targetUrl @
      [Console Log ''---> Found potential M3U8 request: https://cdn.example.com/live/a.m3u8'',
       Assign ''https://cdn.example.com/live/a.m3u8'',
       LinkFoundResolver,
       SetRequestInterception False,
       AbortCall (plain_request ''https://cdn.example.com/live/a.m3u8''),
       Console Log ''Closing browser (finally block)...'',
       Close,
       AbortCall segment_request,
       report_entry (Some ''https://cdn.example.com/live/a.m3u8'')])"
proof -
  have ok: "setup_succeeds interception_off_env"
    by (simp add: setup_succeeds_def interception_off_env_def quiet_env_def plain_request_def
        segment_request_def)
  have ne: "targetUrl \<noteq> []"
    by (simp add: targetUrl_def)
  have st: "close_state interception_off_env targetUrl =
    (start_state interception_off_env targetUrl)
      \<lparr>m3u8Link := Some ''https://cdn.example.com/live/a.m3u8'', linkFound := True,
       clock := 500, pending := [(520, RequestEvent segment_request)],
       trace := Console Log (''Attempting to scrape: '' @ targetUrl) # setup_effects targetUrl @
        [Console Log ''---> Found potential M3U8 request: https://cdn.example.com/live/a.m3u8'',
         Assign ''https://cdn.example.com/live/a.m3u8'',
         LinkFoundResolver,
         SetRequestInterception False,
         AbortCall (plain_request ''https://cdn.example.com/live/a.m3u8''),
         Console Log ''Closing browser (finally block)...'',
         Close,
         AbortCall segment_request]\<rparr>"
    by (simp add: close_state_def race_state_def start_state_def init_def
        interception_off_env_def quiet_env_def plain_request_def segment_request_def
        findTimeout_def deliver_request endsWith_def capture_effects_def emit_def)
  have c: "close_rejects interception_off_env = None"
    by (simp add: interception_off_env_def quiet_env_def plain_request_def segment_request_def)
  show ?thesis
    using run_setup_ok [OF ok ne] by (simp add: c st)
qed

lemma result_general:
  "fst (findMinimalM3u8Link env u) =
     (if \<not> truthy u \<or> launch_rejects env \<noteq> None then Inr None
      else case close_rejects env of
             Some e \<Rightarrow> Inl e
           | None \<Rightarrow>
               Inr (if setup_succeeds env
                    then first_manifest (map snd (before_deadline (events env) @ during_late_close env))
                    else None))"
proof (cases rule: run_cases [of u env])
  case no_url
  then show ?thesis by simp
next
  case (launch_fails v e)
  then show ?thesis by (simp add: run_launch_fails)
next
  case (setup_fails v)
  then show ?thesis by (simp add: run_setup_fails Let_def split: option.splits)
next
  case (setup_ok v)
  then have "launch_rejects env = None"
    by (simp add: setup_succeeds_def)
  then show ?thesis
    using setup_ok result_setup_ok [of env v] by simp
qed

lemma deliver_prefix: "prefix (trace s) (trace (deliver env ev s))"
  by (cases ev) (simp_all add: deliver_request deliver_goto)

lemma deliver_all_prefix: "prefix (trace s) (trace (deliver_all env evs s))"
proof (induction evs arbitrary: s)
  case Nil
  then show ?case by simp
next
  case (Cons ev evs)
  show ?case
    using deliver_prefix [of s env ev] Cons [of "deliver env ev s"] by (auto intro: prefix_order.trans)
qed

lemma await_race_prefix: "prefix (trace s) (trace (await_race env tevs s))"
proof (induction env tevs s rule: await_race.induct)
  case (1 env s)
  then show ?case by simp
next
  case (2 env t ev evs s)
  show ?case
  proof (cases "linkFound s \<or> findTimeout \<le> t")
    case True
    then show ?thesis by auto
  next
    case False
    then have "prefix (trace (deliver env ev (s\<lparr>clock := t\<rparr>)))
        (trace (await_race env ((t, ev) # evs) s))"
      using 2 by simp
    moreover have "prefix (trace s) (trace (deliver env ev (s\<lparr>clock := t\<rparr>)))"
      using deliver_prefix [of "s\<lparr>clock := t\<rparr>" env ev] by simp
    ultimately show ?thesis
      by (rule prefix_order.trans [rotated])
  qed
qed

lemma close_state_prefix:
  "prefix (Console Log (''Attempting to scrape: '' @ v) # setup_effects v) (trace (close_state env v))"
proof -
  have a: "prefix (Console Log (''Attempting to scrape: '' @ v) # setup_effects v) (trace (race_state env v))"
    using await_race_prefix [of "start_state env v" env "events env"]
    by (simp add: race_state_def start_state_def)
  let ?s = "(race_state env v)\<lparr>trace := trace (race_state env v)
      @ [Console Log ''Closing browser (finally block)...'', Close]\<rparr>"
  have "prefix (trace (race_state env v)) (trace ?s)"
    by simp
  moreover have "prefix (trace ?s) (trace (close_state env v))"
    unfolding close_state_def Let_def by (rule deliver_all_prefix)
  ultimately show ?thesis
    using a by (meson prefix_order.trans)
qed

lemma whole_trace_launch:
  assumes "u = Some v" and "v \<noteq> []"
  shows "\<exists>tr. snd (findMinimalM3u8Link env u) =
     [Console Log (''Attempting to scrape: '' @ v), Console Log ''Launching browser...'',
      Launch True [''--no-sandbox'', ''--disable-setuid-sandbox'',
                   ''--disable-blink-features=AutomationControlled'']] @ tr"
proof (cases rule: run_cases [of u env])
  case no_url
  then show ?thesis using assms by simp
next
  case (launch_fails v e)
  then show ?thesis using assms by (simp add: run_launch_fails)
next
  case (setup_fails v)
  then show ?thesis using assms by (simp add: run_setup_fails Let_def split: option.splits)
next
  case (setup_ok w)
  then have w: "w = v" using assms by simp
  obtain zs where zs: "trace (close_state env v) =
      (Console Log (''Attempting to scrape: '' @ v) # setup_effects v) @ zs"
    using close_state_prefix [of v env] by (auto simp: prefix_def)
  show ?thesis
    using setup_ok w zs by (simp add: run_setup_ok setup_effects_def split: option.splits)
qed

lemma whole_trace_timer:
  assumes "setup_succeeds env" and "truthy u"
  shows "SetTimeout findTimeout \<in> set (snd (findMinimalM3u8Link env u))"
proof -
  obtain v where v: "u = Some v" "v \<noteq> []"
    using assms(2) by (auto elim: truthy_cases)
  obtain zs where zs: "trace (close_state env v) =
      (Console Log (''Attempting to scrape: '' @ v) # setup_effects v) @ zs"
    using close_state_prefix [of v env] by (auto simp: prefix_def)
  show ?thesis
    using assms(1) v zs by (simp add: run_setup_ok setup_effects_def split: option.splits)
qed

lemma takeWhile_sorted_filter:
  "sorted (map fst xs) \<Longrightarrow>
   takeWhile (\<lambda>(t, ev). t < (c::nat)) xs = filter (\<lambda>(t, ev). t < c) xs \<and>
   dropWhile (\<lambda>(t, ev). t < c) xs = filter (\<lambda>(t, ev). \<not> t < c) xs"
proof (induction xs)
  case Nil
  then show ?case by simp
next
  case (Cons x xs)
  obtain t ev where x: "x = (t, ev)" by (cases x)
  from Cons.prems have later: "\<forall>y \<in> set xs. t \<le> fst y" and s: "sorted (map fst xs)"
    by (simp_all add: x)
  show ?case
  proof (cases "t < c")
    case True
    then show ?thesis using Cons.IH [OF s] by (simp add: x)
  next
    case False
    then have "\<forall>y \<in> set xs. \<not> fst y < c"
      using later by auto
    then have "filter (\<lambda>(t, ev). t < c) xs = []" "filter (\<lambda>(t, ev). \<not> t < c) xs = xs"
      by (auto simp: filter_empty_conv filter_id_conv)
    then show ?thesis using False by (simp add: x)
  qed
qed

lemma request_urls_filter:
  "request_urls (map snd (filter (\<lambda>(t, ev). \<not> goto_rejected ev) xs)) = request_urls (map snd xs)"
proof (induction xs)
  case Nil
  then show ?case by simp
next
  case (Cons x xs)
  obtain t ev where x: "x = (t, ev)" by (cases x)
  show ?case using Cons by (cases ev) (simp_all add: x)
qed

lemma sorted_filter_fst: "sorted (map fst xs) \<Longrightarrow> sorted (map fst (filter P xs))"
  by (induction xs) auto

lemma filter_commute: "filter P (filter Q xs) = filter Q (filter P xs)"
  by (induction xs) auto

lemma observed_without_navigation_errors:
  assumes "sorted (map fst (events env))"
  shows "first_manifest (map snd (before_deadline (events (without_navigation_errors env))
             @ during_late_close (without_navigation_errors env))) =
         first_manifest (map snd (before_deadline (events env) @ during_late_close env))"
proof -
  let ?nn = "\<lambda>(t, ev). \<not> goto_rejected ev"
  let ?xs = "events env"
  let ?ys = "filter ?nn ?xs"
  have sy: "sorted (map fst ?ys)"
    using assms by (rule sorted_filter_fst)
  have b: "before_deadline ?ys = filter ?nn (before_deadline ?xs)"
    using takeWhile_sorted_filter [OF assms, of findTimeout] takeWhile_sorted_filter [OF sy, of findTimeout]
    by (simp add: before_deadline_def conj_commute)
  have a: "after_deadline ?ys = filter ?nn (after_deadline ?xs)"
    using takeWhile_sorted_filter [OF assms, of findTimeout] takeWhile_sorted_filter [OF sy, of findTimeout]
    by (simp add: after_deadline_def conj_commute)
  have sa: "sorted (map fst (after_deadline ?xs))"
    using assms takeWhile_sorted_filter [OF assms, of findTimeout]
    by (simp add: after_deadline_def sorted_filter_fst)
  have sa': "sorted (map fst (filter ?nn (after_deadline ?xs)))"
    using sa by (rule sorted_filter_fst)
  have d: "during_late_close (without_navigation_errors env) = filter ?nn (during_late_close env)"
    using takeWhile_sorted_filter [OF sa, of "findTimeout + close_ms env"]
      takeWhile_sorted_filter [OF sa', of "findTimeout + close_ms env"]
    by (simp add: during_late_close_def without_navigation_errors_def a conj_commute)
  have "map snd (before_deadline ?ys @ during_late_close (without_navigation_errors env)) =
        map snd (filter ?nn (before_deadline ?xs @ during_late_close env))"
    by (simp add: b d)
  then show ?thesis
    by (simp add: first_manifest_def without_navigation_errors_def request_urls_filter
        del: map_append filter_append)
qed

lemma close_rejects_run:
  "findMinimalM3u8Link close_rejects_env (Some targetUrl) =
     (Inl (JSError ''Error'' ''Protocol error (Browser.close): Target closed.''),
      Console Log (''Attempting to scrape: '' @ targetUrl) # setup_effects targetUrl @
      [Console Log ''---> Found potential M3U8 request: https://cdn.example.com/live/a.m3u8'',
       Assign ''https://cdn.example.com/live/a.m3u8'',
       LinkFoundResolver,
       SetRequestInterception False,
       AbortCall (plain_request ''https://cdn.example.com/live/a.m3u8''),
       Console Log ''Closing browser (finally block)...'',
       Close])"
proof -
  have ok: "setup_succeeds close_rejects_env"
    by (simp add: setup_succeeds_def close_rejects_env_def quiet_env_def plain_request_def)
  have ne: "targetUrl \<noteq> []"
    by (simp add: targetUrl_def)
  have st: "trace (close_state close_rejects_env targetUrl) =
      Console Log (''Attempting to scrape: '' @ targetUrl) # setup_effects targetUrl @
        [Console Log ''---> Found potential M3U8 request: https://cdn.example.com/live/a.m3u8'',
         Assign ''https://cdn.example.com/live/a.m3u8'',
         LinkFoundResolver,
         SetRequestInterception False,
         AbortCall (plain_request ''https://cdn.example.com/live/a.m3u8''),
         Console Log ''Closing browser (finally block)...'',
         Close]"
    by (simp add: close_state_def race_state_def start_state_def init_def close_rejects_env_def
        quiet_env_def plain_request_def
        findTimeout_def deliver_request endsWith_def capture_effects_def emit_def)
  have c: "close_rejects close_rejects_env
      = Some (JSError ''Error'' ''Protocol error (Browser.close): Target closed.'')"
    by (simp add: close_rejects_env_def quiet_env_def plain_request_def)
  show ?thesis
    using run_setup_ok [OF ok ne] by (simp add: c st)
qed

lemma navigation_error_run:
  "findMinimalM3u8Link navigation_error_env (Some targetUrl) =
     (Inr (Some ''https://cdn.example.com/live/a.m3u8''),
      Console Log (''Attempting to scrape: '' @ targetUrl) # setup_effects targetUrl @
      [Console Log ''---> Found potential M3U8 request: https://cdn.example.com/live/a.m3u8'',
       Assign ''https://cdn.example.com/live/a.m3u8'',
       LinkFoundResolver,
       SetRequestInterception False,
       AbortCall (plain_request ''https://cdn.example.com/live/a.m3u8''),
       Console Log ''Closing browser (finally block)...'',
       Close,
       Console Log ''Navigation ended (or timed out), but M3U8 link was already found.'',
       report_entry (Some ''https://cdn.example.com/live/a.m3u8'')])"
proof -
  have ok: "setup_succeeds navigation_error_env"
    by (simp add: setup_succeeds_def navigation_error_env_def quiet_env_def plain_request_def)
  have ne: "targetUrl \<noteq> []"
    by (simp add: targetUrl_def)
  have st: "close_state navigation_error_env targetUrl =
    (start_state navigation_error_env targetUrl)
      \<lparr>m3u8Link := Some ''https://cdn.example.com/live/a.m3u8'', linkFound := True,
       clock := 500,
       pending := [(530, GotoRejected (JSError ''Error''
                      ''Navigation failed because browser has disconnected!''))],
       trace := Console Log (''Attempting to scrape: '' @ targetUrl) # setup_effects targetUrl @
        [Console Log ''---> Found potential M3U8 request: https://cdn.example.com/live/a.m3u8'',
         Assign ''https://cdn.example.com/live/a.m3u8'',
         LinkFoundResolver,
         SetRequestInterception False,
         AbortCall (plain_request ''https://cdn.example.com/live/a.m3u8''),
         Console Log ''Closing browser (finally block)...'',
         Close,
         Console Log ''Navigation ended (or timed out), but M3U8 link was already found.'']\<rparr>"
    by (simp add: close_state_def race_state_def start_state_def init_def
        navigation_error_env_def quiet_env_def plain_request_def
        findTimeout_def deliver_request deliver_goto endsWith_def capture_effects_def emit_def)
  have c: "close_rejects navigation_error_env = None"
    by (simp add: navigation_error_env_def quiet_env_def plain_request_def)
  show ?thesis
    using run_setup_ok [OF ok ne] by (simp add: c st)
qed

lemma before_deadline_append:
  "\<exists>zs. before_deadline (xs @ ys) = before_deadline xs @ zs"
proof (cases "\<forall>x \<in> set xs. (\<lambda>(t, ev). t < findTimeout) x")
  case True
  then have "takeWhile (\<lambda>(t, ev). t < findTimeout) xs = xs"
    by simp
  moreover have "takeWhile (\<lambda>(t, ev). t < findTimeout) (xs @ ys)
      = xs @ takeWhile (\<lambda>(t, ev). t < findTimeout) ys"
    using True by (intro takeWhile_append2) blast
  ultimately show ?thesis
    unfolding before_deadline_def by metis
next
  case False
  then obtain x where "x \<in> set xs" "\<not> (\<lambda>(t, ev). t < findTimeout) x"
    by blast
  then show ?thesis
    by (simp add: before_deadline_def)
qed

lemma resolution_calls_capture_effects:
  "resolution_calls (capture_effects env r p) = (if isInterceptResolutionHandled r then [] else [AbortCall r])"
  by (simp add: capture_effects_def split: option.splits)

lemma deliver_assigned_found:
  "truthy (m3u8Link s) \<Longrightarrow> assigned (trace (deliver env ev s)) = assigned (trace s)"
  by (cases ev) (simp_all add: deliver_request deliver_goto)

lemma deliver_all_found:
  "truthy (m3u8Link s) \<Longrightarrow>
   m3u8Link (deliver_all env evs s) = m3u8Link s \<and>
   assigned (trace (deliver_all env evs s)) = assigned (trace s)"
proof (induction evs arbitrary: s)
  case Nil
  then show ?case by simp
next
  case (Cons ev evs)
  have "truthy (m3u8Link (deliver env ev s))"
    using Cons.prems by (simp add: deliver_link)
  then show ?case
    using Cons.IH [of "deliver env ev s"] Cons.prems
    by (simp add: deliver_link deliver_assigned_found)
qed

lemma endsWith_append: "endsWith x suf \<longleftrightarrow> (\<exists>p. x = p @ suf)"
  by (auto simp: endsWith_suffix suffix_def)

lemma scrape_response_shape:
  "fst (scrape env) =
     (if launch_rejects env = None \<and> close_rejects env \<noteq> None
      then Inl (the (close_rejects env))
      else Inr (Response 200
             (if setup_succeeds env
              then first_manifest (map snd (before_deadline (events env) @ during_late_close env))
              else None)))"
proof (cases "launch_rejects env")
  case None
  then show ?thesis
    by (cases "close_rejects env") (simp_all add: scrape_result result_general targetUrl_def)
next
  case (Some e)
  then show ?thesis
    by (simp add: scrape_result result_general targetUrl_def setup_succeeds_def)
qed

lemma endsWith_after_extension:
  assumes qn: "q \<noteq> []"
  shows "endsWith (p @ ''.m3u8'' @ q) ''.m3u8'' = endsWith q ''.m3u8''"
proof (cases "5 \<le> length q")
  case True
  have "suffix ''.m3u8'' ((p @ ''.m3u8'') @ q) \<longleftrightarrow> suffix ''.m3u8'' q"
  proof
    assume "suffix ''.m3u8'' ((p @ ''.m3u8'') @ q)"
    then consider "suffix ''.m3u8'' q" | xs where "''.m3u8'' = xs @ q"
      unfolding suffix_append by blast
    then show "suffix ''.m3u8'' q"
    proof cases
      case 1
      then show ?thesis .
    next
      case 2
      then have "length ''.m3u8'' = length xs + length q"
        by (metis length_append)
      then have "5 = length xs + length q"
        by simp
      then have "length xs = 0"
        using True by arith
      then have "xs = []"
        by simp
      then show ?thesis
        using 2 by simp
    qed
  next
    assume "suffix ''.m3u8'' q"
    then show "suffix ''.m3u8'' ((p @ ''.m3u8'') @ q)"
      by (rule suffix_appendI)
  qed
  then show ?thesis
    by (simp add: endsWith_suffix)
next
  case False
  have "0 < length q"
    using qn by simp
  then have "length q = 1 \<or> length q = 2 \<or> length q = 3 \<or> length q = 4"
    using False by arith
  then have "\<not> endsWith (p @ ''.m3u8'' @ q) ''.m3u8''"
    by (auto simp: endsWith_def length_Suc_conv numeral_eq_Suc)
  moreover have "\<not> endsWith q ''.m3u8''"
    using False by (simp add: endsWith_def)
  ultimately show ?thesis by simp
qed

lemma request_handler_assigns:
  "assigned (effects_of (request_handler env r) s) =
     (if endsWith (url r) ''.m3u8'' \<and> \<not> truthy (m3u8Link s) then [url r] else [])"
  by (simp add: request_handler_cases effects_of_def capture_effects_facts)

section \<open>The claims\<close>

text \<open>
  C1. Requests are observed once the set-up has succeeded (the listener is registered on
  line 49). When a request whose URL ends in \<^verbatim>\<open>.m3u8\<close> is observed before the deadline,
  the value \<^verbatim>\<open>findMinimalM3u8Link\<close> returns, and the \<^verbatim>\<open>link\<close> field of the response, is
  the URL of the first such request, whatever is observed afterwards. The statement also
  says when no value is returned: exactly when \<^verbatim>\<open>browser.close()\<close> rejects, the call
  rejects with that error.
\<close>

theorem first_match_wins:
  assumes "setup_succeeds env" and "truthy u"
    and "first_manifest (map snd (before_deadline (events env))) = Some l"
  shows "fst (findMinimalM3u8Link env u) =
           (case close_rejects env of None \<Rightarrow> Inr (Some l) | Some e \<Rightarrow> Inl e) \<and>
         fst (scrape env) =
           (case close_rejects env of None \<Rightarrow> Inr (Response 200 (Some l)) | Some e \<Rightarrow> Inl e)"
proof -
  have any: "fst (findMinimalM3u8Link env (Some v)) =
           (case close_rejects env of None \<Rightarrow> Inr (Some l) | Some e \<Rightarrow> Inl e)" if "v \<noteq> []" for v
    using result_setup_ok [OF assms(1) that] assms(3)
    by (simp add: first_manifest_append split: option.splits)
  have "fst (findMinimalM3u8Link env u) =
           (case close_rejects env of None \<Rightarrow> Inr (Some l) | Some e \<Rightarrow> Inl e)"
    using assms(2) any by (auto elim: truthy_cases)
  moreover have "fst (scrape env) =
           (case close_rejects env of None \<Rightarrow> Inr (Response 200 (Some l)) | Some e \<Rightarrow> Inl e)"
    using any [of targetUrl] by (simp add: scrape_result targetUrl_def split: option.splits)
  ultimately show ?thesis by simp
qed

theorem first_match_wins_witness:
  "setup_succeeds two_manifests_env \<and> truthy (Some targetUrl) \<and>
   first_manifest (map snd (before_deadline (events two_manifests_env)))
     = Some ''https://cdn.example.com/live/a.m3u8'' \<and>
   fst (findMinimalM3u8Link two_manifests_env (Some targetUrl))
     = Inr (Some ''https://cdn.example.com/live/a.m3u8'') \<and>
   fst (scrape two_manifests_env) = Inr (Response 200 (Some ''https://cdn.example.com/live/a.m3u8''))"
proof -
  have a: "setup_succeeds two_manifests_env"
    by (simp add: setup_succeeds_def two_manifests_env_def quiet_env_def plain_request_def)
  have b: "first_manifest (map snd (before_deadline (events two_manifests_env)))
     = Some ''https://cdn.example.com/live/a.m3u8''"
    by (simp add: two_manifests_env_def quiet_env_def plain_request_def before_deadline_def
        findTimeout_def first_manifest_def endsWith_def)
  have c: "close_rejects two_manifests_env = None"
    by (simp add: two_manifests_env_def quiet_env_def plain_request_def)
  show ?thesis
    using first_match_wins [OF a truthy_targetUrl b] a b truthy_targetUrl by (simp add: c)
qed

text \<open>
  C2, as the claim states it, fails: in the session \<open>interception_off_env\<close> the
  manifest is captured at 500 ms, the handler switches interception off, and the segment
  requested at 520 ms is observed by the abort branch, whose \<^verbatim>\<open>abort()\<close> call the library
  rejects; the rejection is ignored (line 97) and the request is not aborted.
\<close>

theorem later_request_not_aborted:
  "fst (findMinimalM3u8Link interception_off_env (Some targetUrl))
     = Inr (Some ''https://cdn.example.com/live/a.m3u8'') \<and>
   AbortCall segment_request
     \<in> set (after_capture (snd (findMinimalM3u8Link interception_off_env (Some targetUrl)))) \<and>
   \<not> request_aborted segment_request (snd (findMinimalM3u8Link interception_off_env (Some targetUrl)))"
  by (simp add: interception_off_run setup_effects_def request_aborted_def segment_request_def)

text \<open>
  C2, amended. Once the link is captured no \<^verbatim>\<open>request.continue()\<close> is ever called again
  in the call; and for a request observed with the link captured the handler throws
  nothing, calls \<^verbatim>\<open>request.abort()\<close> exactly when the request's interception is not
  already resolved, and the request is aborted exactly when, moreover, that call does
  not reject.
\<close>

theorem after_capture_attempts_abort:
  "continue_calls (after_capture (snd (findMinimalM3u8Link env u))) = [] \<and>
   (truthy (m3u8Link s) \<longrightarrow>
      request_handler env r s =
        (None, if isInterceptResolutionHandled r then s else emit (AbortCall r) s) \<and>
      effects_of (request_handler env r) s =
        (if isInterceptResolutionHandled r then [] else [AbortCall r]) \<and>
      request_aborted r (effects_of (request_handler env r) s) =
        (\<not> isInterceptResolutionHandled r \<and> abort_rejects r = None))"
proof -
  have "continue_calls (after_capture (snd (findMinimalM3u8Link env u))) = []"
    using whole_trace_tidy [of env u] by simp
  moreover have "request_handler env r s =
        (None, if isInterceptResolutionHandled r then s else emit (AbortCall r) s) \<and>
      effects_of (request_handler env r) s =
        (if isInterceptResolutionHandled r then [] else [AbortCall r]) \<and>
      request_aborted r (effects_of (request_handler env r) s) =
        (\<not> isInterceptResolutionHandled r \<and> abort_rejects r = None)" if "truthy (m3u8Link s)"
    using request_handler_abort [OF that, of env r]
    by (simp add: effects_of_def request_aborted_def)
  ultimately show ?thesis by blast
qed

theorem after_capture_attempts_abort_witness:
  "truthy (m3u8Link (close_state interception_off_env targetUrl)) \<and>
   continue_calls (after_capture (snd (findMinimalM3u8Link interception_off_env (Some targetUrl)))) = [] \<and>
   effects_of (request_handler interception_off_env segment_request)
      (close_state interception_off_env targetUrl) = [AbortCall segment_request] \<and>
   \<not> request_aborted segment_request
      (effects_of (request_handler interception_off_env segment_request)
         (close_state interception_off_env targetUrl))"
proof -
  have t: "truthy (m3u8Link (close_state interception_off_env targetUrl))"
    by (simp add: close_state_def race_state_def start_state_def init_def
        interception_off_env_def quiet_env_def plain_request_def segment_request_def
        findTimeout_def deliver_request endsWith_def deliver_all_link)
  show ?thesis
    using after_capture_attempts_abort [of interception_off_env "Some targetUrl"
        "close_state interception_off_env targetUrl" segment_request] t
    by (simp add: segment_request_def request_aborted_def)
qed

text \<open>
  C3. The claim says that no error of the search reaches the HTTP layer and that a
  failure of \<^verbatim>\<open>browser.close()\<close> is logged and never propagated. The \<^verbatim>\<open>finally\<close> block
  awaits \<^verbatim>\<open>browser.close()\<close> outside any \<^verbatim>\<open>try\<close> (line 144): in the session
  \<open>close_rejects_env\<close> the link is captured, \<^verbatim>\<open>browser.close()\<close> rejects, and the call
  rejects with that error, having logged neither a warning nor an error.
\<close>

theorem close_rejection_propagates:
  "fst (findMinimalM3u8Link close_rejects_env (Some targetUrl))
     = Inl (JSError ''Error'' ''Protocol error (Browser.close): Target closed.'') \<and>
   assigned (snd (findMinimalM3u8Link close_rejects_env (Some targetUrl)))
     = [''https://cdn.example.com/live/a.m3u8''] \<and>
   console_lines Warn (snd (findMinimalM3u8Link close_rejects_env (Some targetUrl))) = [] \<and>
   console_lines Error (snd (findMinimalM3u8Link close_rejects_env (Some targetUrl))) = []"
  by (simp add: close_rejects_run setup_effects_def)

text \<open>
  C4. The claim says that every request to \<^verbatim>\<open>GET /scrape\<close> is answered 200 with a
  \<^verbatim>\<open>link\<close> field. In the session \<open>timeout_close_rejects_env\<close> no manifest is requested,
  the deadline passes, \<^verbatim>\<open>browser.close()\<close> rejects, the awaited call of line 162 rejects
  and \<^verbatim>\<open>res.send\<close> is not reached: the route handler sends no response.
\<close>

theorem scrape_sends_no_response:
  "fst (scrape timeout_close_rejects_env)
     = Inl (JSError ''Error'' ''Protocol error (Browser.close): Target closed.'')"
proof -
  have "launch_rejects timeout_close_rejects_env = None"
    "close_rejects timeout_close_rejects_env
       = Some (JSError ''Error'' ''Protocol error (Browser.close): Target closed.'')"
    by (simp_all add: timeout_close_rejects_env_def quiet_env_def)
  then show ?thesis
    by (simp add: scrape_result result_general targetUrl_def)
qed

text \<open>
  C5, as the claim states it, fails in its last part: in the session
  \<open>late_manifest_env\<close> no request ending in \<^verbatim>\<open>.m3u8\<close> is observed before the deadline,
  one is observed 5 ms after it while \<^verbatim>\<open>browser.close()\<close> is pending, and its URL is
  returned.
\<close>

theorem late_capture_returned:
  "first_manifest (map snd (before_deadline (events late_manifest_env))) = None \<and>
   fst (findMinimalM3u8Link late_manifest_env (Some targetUrl))
     = Inr (Some ''https://cdn.example.com/live/a.m3u8'')"
proof -
  have "truthy (Some targetUrl)" by (rule truthy_targetUrl)
  moreover have "setup_succeeds late_manifest_env" "launch_rejects late_manifest_env = None"
    "close_rejects late_manifest_env = None"
    by (simp_all add: late_manifest_env_def quiet_env_def plain_request_def setup_succeeds_def)
  moreover have "before_deadline (events late_manifest_env) = []"
    "during_late_close late_manifest_env =
       [(10005, RequestEvent (plain_request ''https://cdn.example.com/live/a.m3u8''))]"
    by (simp_all add: late_manifest_env_def quiet_env_def plain_request_def before_deadline_def
        during_late_close_def after_deadline_def
        findTimeout_def)
  ultimately show ?thesis
    by (simp add: result_general first_manifest_def plain_request_def endsWith_def)
qed

text \<open>
  C5, amended. The timer of the race is armed with \<open>findTimeout\<close>, which is 10000 ms. The
  wait ends at the time of the first request ending in \<^verbatim>\<open>.m3u8\<close> observed before the
  deadline, with the promise resolved, or at the deadline when there is none. When no
  such request is observed before the deadline nor while \<^verbatim>\<open>browser.close()\<close> is pending
  after it, and \<^verbatim>\<open>browser.close()\<close> resolves, the result is \<^verbatim>\<open>null\<close>; when none is
  observed before the deadline, the set-up succeeded and \<^verbatim>\<open>browser.close()\<close> resolves,
  the result is the URL of the first such request observed while it was pending.
\<close>

theorem wait_is_race:
  "findTimeout = 10000 \<and>
   (setup_succeeds env \<and> truthy u \<longrightarrow>
      SetTimeout 10000 \<in> set (snd (findMinimalM3u8Link env u))) \<and>
   (\<not> linkFound s \<and> m3u8Link s = None \<longrightarrow>
      fst (promise_race env s) = None \<and>
      clock (snd (promise_race env s)) =
        (case first_capture_time (before_deadline (pending s)) of
           Some t \<Rightarrow> t
         | None \<Rightarrow> findTimeout) \<and>
      linkFound (snd (promise_race env s)) =
        (first_capture_time (before_deadline (pending s)) \<noteq> None)) \<and>
   (first_manifest (map snd (before_deadline (events env))) = None \<and>
    first_manifest (map snd (during_late_close env)) = None \<and>
    close_rejects env = None \<longrightarrow>
      fst (findMinimalM3u8Link env u) = Inr None) \<and>
   (first_manifest (map snd (before_deadline (events env))) = None \<and>
    setup_succeeds env \<and> truthy u \<and> close_rejects env = None \<longrightarrow>
      fst (findMinimalM3u8Link env u) = Inr (first_manifest (map snd (during_late_close env))))"
proof -
  have timer: "SetTimeout 10000 \<in> set (snd (findMinimalM3u8Link env u))"
    if "setup_succeeds env" "truthy u"
    using whole_trace_timer [OF that] by (simp add: findTimeout_def)
  have race: "fst (promise_race env s) = None \<and>
      clock (snd (promise_race env s)) =
        (case first_capture_time (before_deadline (pending s)) of
           Some t \<Rightarrow> t
         | None \<Rightarrow> findTimeout) \<and>
      linkFound (snd (promise_race env s)) =
        (first_capture_time (before_deadline (pending s)) \<noteq> None)"
    if "\<not> linkFound s" "m3u8Link s = None"
    using await_race_clock [OF that, of env "pending s"] await_race_link [OF that, of env "pending s"]
    by (simp add: promise_race_def first_capture_time_manifest)
  have null: "fst (findMinimalM3u8Link env u) = Inr None"
    if "first_manifest (map snd (before_deadline (events env))) = None"
      "first_manifest (map snd (during_late_close env)) = None" "close_rejects env = None"
    using that by (simp add: result_general first_manifest_append)
  have late: "fst (findMinimalM3u8Link env u) = Inr (first_manifest (map snd (during_late_close env)))"
    if "first_manifest (map snd (before_deadline (events env))) = None"
      "setup_succeeds env" "truthy u" "close_rejects env = None"
    using that by (simp add: result_general first_manifest_append setup_succeeds_def)
  show ?thesis
    using timer race null late by (simp add: findTimeout_def)
qed

theorem wait_is_race_witness:
  "setup_succeeds two_manifests_env \<and> truthy (Some targetUrl) \<and>
   SetTimeout 10000 \<in> set (snd (findMinimalM3u8Link two_manifests_env (Some targetUrl))) \<and>
   \<not> linkFound (init two_manifests_env) \<and> m3u8Link (init two_manifests_env) = None \<and>
   clock (snd (promise_race two_manifests_env (init two_manifests_env))) = 500 \<and>
   linkFound (snd (promise_race two_manifests_env (init two_manifests_env))) \<and>
   \<not> linkFound (init quiet_env) \<and> m3u8Link (init quiet_env) = None \<and>
   clock (snd (promise_race quiet_env (init quiet_env))) = 10000 \<and>
   \<not> linkFound (snd (promise_race quiet_env (init quiet_env))) \<and>
   first_manifest (map snd (before_deadline (events quiet_env))) = None \<and>
   first_manifest (map snd (during_late_close quiet_env)) = None \<and>
   setup_succeeds quiet_env \<and> close_rejects quiet_env = None \<and>
   fst (findMinimalM3u8Link quiet_env (Some targetUrl)) = Inr None"
proof -
  have a: "setup_succeeds two_manifests_env" "setup_succeeds quiet_env"
    by (simp_all add: setup_succeeds_def two_manifests_env_def quiet_env_def)
  have b: "\<not> linkFound (init two_manifests_env)" "m3u8Link (init two_manifests_env) = None"
    "\<not> linkFound (init quiet_env)" "m3u8Link (init quiet_env) = None"
    by (simp_all add: init_def)
  have c: "first_capture_time (before_deadline (pending (init two_manifests_env))) = Some 500"
    "first_capture_time (before_deadline (pending (init quiet_env))) = None"
    by (simp_all add: init_def two_manifests_env_def quiet_env_def plain_request_def
        before_deadline_def findTimeout_def endsWith_def)
  have d: "first_manifest (map snd (before_deadline (events quiet_env))) = None"
    "first_manifest (map snd (during_late_close quiet_env)) = None"
    "close_rejects quiet_env = None"
    by (simp_all add: quiet_env_def during_late_close_def)
  show ?thesis
    using wait_is_race [of two_manifests_env "Some targetUrl" "init two_manifests_env"]
      wait_is_race [of quiet_env "Some targetUrl" "init quiet_env"]
      a b c d truthy_targetUrl
    by simp
qed

text \<open>
  C6, as the claim states it, fails in its first part: in the session
  \<open>navigation_error_env\<close> the navigation rejects after the link was captured, and the
  callback of line 110 writes an informational line with \<^verbatim>\<open>console.log\<close> (line 117),
  which does not carry the error's message; no warning is logged.
\<close>

theorem navigation_error_logged_without_warning:
  "fst (findMinimalM3u8Link navigation_error_env (Some targetUrl))
     = Inr (Some ''https://cdn.example.com/live/a.m3u8'') \<and>
   console_lines Warn (snd (findMinimalM3u8Link navigation_error_env (Some targetUrl))) = [] \<and>
   ''Navigation ended (or timed out), but M3U8 link was already found.''
     \<in> set (console_lines Log (snd (findMinimalM3u8Link navigation_error_env (Some targetUrl))))"
  by (simp add: navigation_error_run setup_effects_def report_entry_def)

text \<open>
  C6, amended. A rejection of the navigation throws nothing and changes nothing but the
  console: one line, a warning with the error's message when no link is captured yet, an
  informational line when one is. The outcome of a call is the same with and without the
  navigation errors among its events (delivered in the order of their times), and a
  link captured before a navigation error is still the outcome.
\<close>

theorem navigation_error_only_logged:
  "goto_catch e s =
     (None,
      emit (if truthy (m3u8Link s)
            then Console Log ''Navigation ended (or timed out), but M3U8 link was already found.''
            else Console Warn (''Navigation potentially failed before M3U8 link found: '' @ message e)) s) \<and>
   (sorted (map fst (events env)) \<longrightarrow>
      fst (findMinimalM3u8Link (without_navigation_errors env) u) = fst (findMinimalM3u8Link env u)) \<and>
   (setup_succeeds env \<and> truthy u \<and> events env = pre @ (t, GotoRejected e) # post \<and>
    first_manifest (map snd (before_deadline pre)) = Some l \<longrightarrow>
      fst (findMinimalM3u8Link env u) =
        (case close_rejects env of None \<Rightarrow> Inr (Some l) | Some e' \<Rightarrow> Inl e'))"
proof -
  have same: "fst (findMinimalM3u8Link (without_navigation_errors env) u) = fst (findMinimalM3u8Link env u)"
    if "sorted (map fst (events env))"
  proof -
    have "setup_succeeds (without_navigation_errors env) = setup_succeeds env"
      "launch_rejects (without_navigation_errors env) = launch_rejects env"
      "close_rejects (without_navigation_errors env) = close_rejects env"
      by (simp_all add: without_navigation_errors_def setup_succeeds_def)
    then show ?thesis
      by (simp only: result_general observed_without_navigation_errors [OF that])
  qed
  have kept: "fst (findMinimalM3u8Link env u) =
        (case close_rejects env of None \<Rightarrow> Inr (Some l) | Some e' \<Rightarrow> Inl e')"
    if h: "setup_succeeds env" "truthy u" "events env = pre @ (t, GotoRejected e) # post"
      "first_manifest (map snd (before_deadline pre)) = Some l"
  proof -
    obtain zs where "before_deadline (events env) = before_deadline pre @ zs"
      using before_deadline_append [of pre "(t, GotoRejected e) # post"] h(3) by auto
    then have "first_manifest (map snd (before_deadline (events env) @ during_late_close env)) = Some l"
      using h(4) by (simp add: first_manifest_append)
    moreover have "launch_rejects env = None"
      using h(1) by (simp add: setup_succeeds_def)
    ultimately show ?thesis
      using h(1,2) by (simp add: result_general split: option.splits)
  qed
  show ?thesis
    using same kept goto_catch_cases [of e s] by blast
qed

theorem navigation_error_only_logged_witness:
  "sorted (map fst (events navigation_error_env)) \<and>
   setup_succeeds navigation_error_env \<and> truthy (Some targetUrl) \<and>
   events navigation_error_env =
     [(500, RequestEvent (plain_request ''https://cdn.example.com/live/a.m3u8''))]
     @ (530, GotoRejected (JSError ''Error'' ''Navigation failed because browser has disconnected!'')) # [] \<and>
   first_manifest (map snd (before_deadline
      [(500, RequestEvent (plain_request ''https://cdn.example.com/live/a.m3u8''))]))
     = Some ''https://cdn.example.com/live/a.m3u8'' \<and>
   fst (findMinimalM3u8Link (without_navigation_errors navigation_error_env) (Some targetUrl))
     = fst (findMinimalM3u8Link navigation_error_env (Some targetUrl)) \<and>
   fst (findMinimalM3u8Link navigation_error_env (Some targetUrl))
     = Inr (Some ''https://cdn.example.com/live/a.m3u8'')"
proof -
  have a: "sorted (map fst (events navigation_error_env))"
    "setup_succeeds navigation_error_env"
    "events navigation_error_env =
     [(500, RequestEvent (plain_request ''https://cdn.example.com/live/a.m3u8''))]
     @ (530, GotoRejected (JSError ''Error'' ''Navigation failed because browser has disconnected!'')) # []"
    "close_rejects navigation_error_env = None"
    by (simp_all add: navigation_error_env_def quiet_env_def plain_request_def setup_succeeds_def)
  have b: "first_manifest (map snd (before_deadline
      [(500, RequestEvent (plain_request ''https://cdn.example.com/live/a.m3u8''))]))
     = Some ''https://cdn.example.com/live/a.m3u8''"
    by (simp add: before_deadline_def findTimeout_def first_manifest_def plain_request_def
        endsWith_def)
  show ?thesis
    using navigation_error_only_logged [of "JSError ''Error'' ''Navigation failed because browser has disconnected!''"
        "init navigation_error_env" navigation_error_env "Some targetUrl"
        "[(500, RequestEvent (plain_request ''https://cdn.example.com/live/a.m3u8''))]" 530 "[]"
        "''https://cdn.example.com/live/a.m3u8''"]
      a b truthy_targetUrl
    by simp
qed

text \<open>
  C7. The handler resolves a request at most once: it throws nothing, and on a request
  whose interception is already resolved it calls neither \<^verbatim>\<open>continue()\<close> nor
  \<^verbatim>\<open>abort()\<close>; otherwise it makes exactly one of the two calls. No listener ever throws,
  so no call of \<^verbatim>\<open>findMinimalM3u8Link\<close> leaves an unhandled rejection of a listener.
\<close>

theorem decision_at_most_once:
  "fst (request_handler env r s) = None \<and>
   resolution_calls (effects_of (request_handler env r) s) =
     (if isInterceptResolutionHandled r then []
      else if truthy (m3u8Link s) \<or> endsWith (url r) ''.m3u8'' then [AbortCall r]
      else [ContinueCall r]) \<and>
   length (resolution_calls (effects_of (request_handler env r) s)) \<le> 1 \<and>
   fst (listener env ev s) = None \<and>
   unhandled (snd (findMinimalM3u8Link env u)) = []"
proof -
  have "unhandled (snd (findMinimalM3u8Link env u)) = []"
    using whole_trace_tidy [of env u] by simp
  moreover have "fst (listener env ev s) = None"
    by (rule listener_never_throws)
  moreover have "fst (request_handler env r s) = None"
    by (simp add: request_handler_cases)
  moreover have "resolution_calls (effects_of (request_handler env r) s) =
     (if isInterceptResolutionHandled r then []
      else if truthy (m3u8Link s) \<or> endsWith (url r) ''.m3u8'' then [AbortCall r]
      else [ContinueCall r])"
    by (simp add: request_handler_cases effects_of_def resolution_calls_capture_effects)
  ultimately show ?thesis by simp
qed

theorem decision_at_most_once_witness:
  "resolution_calls (effects_of (request_handler quiet_env (plain_request ''https://cdn.example.com/app.js''))
      (init quiet_env)) = [ContinueCall (plain_request ''https://cdn.example.com/app.js'')] \<and>
   resolution_calls (effects_of (request_handler quiet_env
      ((plain_request ''https://cdn.example.com/app.js'')\<lparr>isInterceptResolutionHandled := True\<rparr>))
      (init quiet_env)) = [] \<and>
   fst (request_handler quiet_env
      ((plain_request ''https://cdn.example.com/live/a.m3u8'')
         \<lparr>abort_rejects := Some (JSError ''Error'' ''Request is already handled!'')\<rparr>)
      (init quiet_env)) = None \<and>
   unhandled (snd (findMinimalM3u8Link quiet_env (Some targetUrl))) = []"
  using decision_at_most_once [where env = quiet_env and s = "init quiet_env"
      and r = "plain_request ''https://cdn.example.com/app.js''" and u = "Some targetUrl"]
    decision_at_most_once [where env = quiet_env and s = "init quiet_env"
      and r = "(plain_request ''https://cdn.example.com/app.js'')\<lparr>isInterceptResolutionHandled := True\<rparr>"]
    decision_at_most_once [where env = quiet_env and s = "init quiet_env"
      and r = "(plain_request ''https://cdn.example.com/live/a.m3u8'')
         \<lparr>abort_rejects := Some (JSError ''Error'' ''Request is already handled!'')\<rparr>"]
  by (simp add: plain_request_def init_def endsWith_def)

text \<open>
  C8. For an absent or empty URL the function returns \<^verbatim>\<open>null\<close> having written one error
  line and nothing else; the browser is launched exactly when the URL is a non-empty
  string.
\<close>

theorem no_session_without_url:
  "(u = None \<or> u = Some [] \<longrightarrow>
      findMinimalM3u8Link env u = (Inr None, [Console Error ''Error: URL is required.''])) \<and>
   ((\<exists>headless args. Launch headless args \<in> set (snd (findMinimalM3u8Link env u))) \<longleftrightarrow>
      (\<exists>v. u = Some v \<and> v \<noteq> []))"
proof -
  have a: "findMinimalM3u8Link env u = (Inr None, [Console Error ''Error: URL is required.''])"
    if "u = None \<or> u = Some []"
    using that by (auto simp: findMinimalM3u8Link_def)
  have b: "\<exists>headless args. Launch headless args \<in> set (snd (findMinimalM3u8Link env u))"
    if h: "u = Some v" "v \<noteq> []" for v
  proof -
    obtain tr where "snd (findMinimalM3u8Link env u) =
     [Console Log (''Attempting to scrape: '' @ v), Console Log ''Launching browser...'',
      Launch True [''--no-sandbox'', ''--disable-setuid-sandbox'',
                   ''--disable-blink-features=AutomationControlled'']] @ tr"
      using whole_trace_launch [OF h, of env] by blast
    then have "Launch True [''--no-sandbox'', ''--disable-setuid-sandbox'',
                   ''--disable-blink-features=AutomationControlled'']
        \<in> set (snd (findMinimalM3u8Link env u))"
      by simp
    then show ?thesis by blast
  qed
  have c: "\<exists>v. u = Some v \<and> v \<noteq> []"
    if "Launch headless args \<in> set (snd (findMinimalM3u8Link env u))" for headless args
  proof (rule ccontr)
    assume "\<not> (\<exists>v. u = Some v \<and> v \<noteq> [])"
    then have "u = None \<or> u = Some []"
      by (cases u) auto
    then show False
      using a that by simp
  qed
  show ?thesis
    using a b c by blast
qed

theorem no_session_without_url_witness:
  "findMinimalM3u8Link quiet_env None = (Inr None, [Console Error ''Error: URL is required.'']) \<and>
   findMinimalM3u8Link quiet_env (Some []) = (Inr None, [Console Error ''Error: URL is required.'']) \<and>
   (\<exists>headless args. Launch headless args \<in> set (snd (findMinimalM3u8Link quiet_env (Some targetUrl))))"
  using no_session_without_url [of None quiet_env] no_session_without_url [of "Some []" quiet_env]
    no_session_without_url [of "Some targetUrl" quiet_env]
  by (simp add: targetUrl_def)

text \<open>
  C9. In every call at most one value is ever assigned to \<^verbatim>\<open>m3u8Link\<close>, and when the
  call returns, the assignments are exactly the value returned (none for \<^verbatim>\<open>null\<close>). Once
  the variable holds a link, no event, and no sequence of events, changes it or assigns
  to it again.
\<close>

theorem link_written_once:
  "length (assigned (snd (findMinimalM3u8Link env u))) \<le> 1 \<and>
   (fst (findMinimalM3u8Link env u) = Inr v \<longrightarrow>
      assigned (snd (findMinimalM3u8Link env u)) = (case v of None \<Rightarrow> [] | Some l \<Rightarrow> [l])) \<and>
   (truthy (m3u8Link s) \<longrightarrow>
      m3u8Link (deliver env ev s) = m3u8Link s \<and>
      m3u8Link (deliver_all env evs s) = m3u8Link s \<and>
      assigned (trace (deliver_all env evs s)) = assigned (trace s))"
proof -
  have a: "length (assigned (snd (findMinimalM3u8Link env u))) \<le> 1"
    using whole_trace_tidy [of env u]
    by (cases "fst (findMinimalM3u8Link env u)") (auto split: option.splits)
  have b: "assigned (snd (findMinimalM3u8Link env u)) = (case v of None \<Rightarrow> [] | Some l \<Rightarrow> [l])"
    if "fst (findMinimalM3u8Link env u) = Inr v"
    using whole_trace_tidy [of env u] that by (auto split: option.splits)
  have c: "m3u8Link (deliver env ev s) = m3u8Link s \<and>
      m3u8Link (deliver_all env evs s) = m3u8Link s \<and>
      assigned (trace (deliver_all env evs s)) = assigned (trace s)" if "truthy (m3u8Link s)"
    using that deliver_all_found [OF that, of env evs] by (simp add: deliver_link)
  show ?thesis
    using a b c by blast
qed

theorem link_written_once_witness:
  "fst (findMinimalM3u8Link two_manifests_env (Some targetUrl))
     = Inr (Some ''https://cdn.example.com/live/a.m3u8'') \<and>
   assigned (snd (findMinimalM3u8Link two_manifests_env (Some targetUrl)))
     = [''https://cdn.example.com/live/a.m3u8''] \<and>
   truthy (m3u8Link ((init quiet_env)\<lparr>m3u8Link := Some ''https://cdn.example.com/live/a.m3u8''\<rparr>)) \<and>
   m3u8Link (deliver two_manifests_env (RequestEvent (plain_request ''https://cdn.example.com/live/b.m3u8''))
      ((init quiet_env)\<lparr>m3u8Link := Some ''https://cdn.example.com/live/a.m3u8''\<rparr>))
     = Some ''https://cdn.example.com/live/a.m3u8''"
proof -
  have r: "fst (findMinimalM3u8Link two_manifests_env (Some targetUrl))
     = Inr (Some ''https://cdn.example.com/live/a.m3u8'')"
  proof -
    have "setup_succeeds two_manifests_env" "launch_rejects two_manifests_env = None"
      "close_rejects two_manifests_env = None"
      by (simp_all add: setup_succeeds_def two_manifests_env_def quiet_env_def plain_request_def)
    moreover have "first_manifest (map snd (before_deadline (events two_manifests_env)))
       = Some ''https://cdn.example.com/live/a.m3u8''"
      by (simp add: two_manifests_env_def quiet_env_def plain_request_def before_deadline_def
          findTimeout_def first_manifest_def endsWith_def)
    ultimately show ?thesis
      by (simp add: result_general first_manifest_append targetUrl_def)
  qed
  show ?thesis
    using link_written_once [where env = two_manifests_env and u = "Some targetUrl"
        and v = "Some ''https://cdn.example.com/live/a.m3u8''"
        and s = "(init quiet_env)\<lparr>m3u8Link := Some ''https://cdn.example.com/live/a.m3u8''\<rparr>"
        and ev = "RequestEvent (plain_request ''https://cdn.example.com/live/b.m3u8'')"
        and evs = "[]"] r
    by simp
qed

text \<open>
  C10, as the claim states it, fails in one part: it says that a URL with anything after
  the extension never qualifies. In the session \<open>query_manifest_env\<close> the only request has
  the URL \<^verbatim>\<open>https://cdn.example.com/live/a.m3u8?next=b.m3u8\<close>, a query string after the
  extension; the URL as a whole ends in \<^verbatim>\<open>.m3u8\<close>, the test of line 54 holds, and the URL
  is captured and returned.
\<close>

theorem text_after_extension_qualifies:
  "''https://cdn.example.com/live/a.m3u8?next=b.m3u8''
     = ''https://cdn.example.com/live/a'' @ ''.m3u8'' @ ''?next=b.m3u8'' \<and>
   endsWith ''https://cdn.example.com/live/a.m3u8?next=b.m3u8'' ''.m3u8'' \<and>
   assigned (effects_of
      (request_handler query_manifest_env
         (plain_request ''https://cdn.example.com/live/a.m3u8?next=b.m3u8''))
      (init query_manifest_env))
     = [''https://cdn.example.com/live/a.m3u8?next=b.m3u8''] \<and>
   fst (findMinimalM3u8Link query_manifest_env (Some targetUrl))
     = Inr (Some ''https://cdn.example.com/live/a.m3u8?next=b.m3u8'')"
proof -
  have e: "endsWith ''https://cdn.example.com/live/a.m3u8?next=b.m3u8'' ''.m3u8''"
    by (simp add: endsWith_def)
  have h: "assigned (effects_of
      (request_handler query_manifest_env
         (plain_request ''https://cdn.example.com/live/a.m3u8?next=b.m3u8''))
      (init query_manifest_env))
     = [''https://cdn.example.com/live/a.m3u8?next=b.m3u8'']"
    using e by (simp add: request_handler_assigns plain_request_def init_def)
  have "setup_succeeds query_manifest_env" "launch_rejects query_manifest_env = None"
    "close_rejects query_manifest_env = None"
    by (simp_all add: query_manifest_env_def quiet_env_def setup_succeeds_def)
  moreover have "first_manifest (map snd (before_deadline (events query_manifest_env)))
     = Some ''https://cdn.example.com/live/a.m3u8?next=b.m3u8''"
    by (simp add: query_manifest_env_def quiet_env_def plain_request_def before_deadline_def
        findTimeout_def first_manifest_def endsWith_def)
  ultimately have r: "fst (findMinimalM3u8Link query_manifest_env (Some targetUrl))
     = Inr (Some ''https://cdn.example.com/live/a.m3u8?next=b.m3u8'')"
    by (simp add: result_general first_manifest_append targetUrl_def)
  show ?thesis
    using e h r by simp
qed

text \<open>
  C10, amended. A URL qualifies exactly when it is some string followed by the five
  characters \<^verbatim>\<open>.m3u8\<close>: an upper-case extension does not qualify, a query string
  \<^verbatim>\<open>?token=x\<close> after the extension does not qualify, and text after the extension
  qualifies exactly when that text itself ends in \<^verbatim>\<open>.m3u8\<close>. The handler follows the
  predicate in both directions: it assigns \<^verbatim>\<open>m3u8Link\<close> exactly when the URL qualifies and
  no link is captured yet, and then captures that URL; a request that does not qualify is
  resolved like any other, continued while no link is captured and aborted afterwards.
  When the set-up succeeds and \<^verbatim>\<open>browser.close()\<close> resolves, the value returned is the
  first observed URL that qualifies, or \<^verbatim>\<open>null\<close> when none does.
\<close>

theorem manifest_predicate_exact:
  "(endsWith x ''.m3u8'' \<longleftrightarrow> (\<exists>p. x = p @ ''.m3u8'')) \<and>
   \<not> endsWith (p @ ''.M3U8'') ''.m3u8'' \<and>
   \<not> endsWith (p @ ''.m3u8?token=x'') ''.m3u8'' \<and>
   (q \<noteq> [] \<longrightarrow> endsWith (p @ ''.m3u8'' @ q) ''.m3u8'' = endsWith q ''.m3u8'') \<and>
   request_handler env r s =
     (None,
      if truthy (m3u8Link s)
      then (if isInterceptResolutionHandled r then s else emit (AbortCall r) s)
      else if endsWith (url r) ''.m3u8''
      then s\<lparr>m3u8Link := Some (url r), linkFound := True,
              trace := trace s @ capture_effects env r (page s)\<rparr>
      else (if isInterceptResolutionHandled r then s else emit (ContinueCall r) s)) \<and>
   assigned (effects_of (request_handler env r) s) =
     (if endsWith (url r) ''.m3u8'' \<and> \<not> truthy (m3u8Link s) then [url r] else []) \<and>
   (setup_succeeds env \<and> truthy u \<and> close_rejects env = None \<longrightarrow>
      fst (findMinimalM3u8Link env u) =
        Inr (find (\<lambda>x. endsWith x ''.m3u8'')
               (request_urls (map snd (before_deadline (events env) @ during_late_close env)))))"
proof -
  have a: "endsWith x ''.m3u8'' \<longleftrightarrow> (\<exists>p. x = p @ ''.m3u8'')"
    by (rule endsWith_append)
  have b: "\<not> endsWith (p @ ''.M3U8'') ''.m3u8''"
    by (simp add: endsWith_def)
  have c: "\<not> endsWith (p @ ''.m3u8?token=x'') ''.m3u8''"
    by (simp add: endsWith_def)
  have d: "endsWith (p @ ''.m3u8'' @ q) ''.m3u8'' = endsWith q ''.m3u8''" if "q \<noteq> []"
    using that by (rule endsWith_after_extension)
  have e: "request_handler env r s =
     (None,
      if truthy (m3u8Link s)
      then (if isInterceptResolutionHandled r then s else emit (AbortCall r) s)
      else if endsWith (url r) ''.m3u8''
      then s\<lparr>m3u8Link := Some (url r), linkFound := True,
              trace := trace s @ capture_effects env r (page s)\<rparr>
      else (if isInterceptResolutionHandled r then s else emit (ContinueCall r) s))"
    by (rule request_handler_cases)
  have f: "assigned (effects_of (request_handler env r) s) =
     (if endsWith (url r) ''.m3u8'' \<and> \<not> truthy (m3u8Link s) then [url r] else [])"
    by (rule request_handler_assigns)
  have g: "fst (findMinimalM3u8Link env u) =
        Inr (find (\<lambda>x. endsWith x ''.m3u8'')
               (request_urls (map snd (before_deadline (events env) @ during_late_close env))))"
    if h: "setup_succeeds env" "truthy u" "close_rejects env = None"
  proof -
    have "launch_rejects env = None"
      using h(1) by (simp add: setup_succeeds_def)
    then have "fst (findMinimalM3u8Link env u) =
        Inr (first_manifest (map snd (before_deadline (events env) @ during_late_close env)))"
      using h by (simp only: result_general) simp
    then show ?thesis
      by (simp only: first_manifest_def)
  qed
  show ?thesis
    using a b c d e f g by blast
qed

theorem manifest_predicate_exact_witness:
  "\<not> endsWith (''https://cdn.example.com/live/a'' @ ''.M3U8'') ''.m3u8'' \<and>
   \<not> endsWith (''https://cdn.example.com/live/a'' @ ''.m3u8?token=x'') ''.m3u8'' \<and>
   ''?next=b.m3u8'' \<noteq> [] \<and>
   endsWith (''https://cdn.example.com/live/a'' @ ''.m3u8'' @ ''?next=b.m3u8'') ''.m3u8'' \<and>
   request_handler quiet_env (plain_request ''https://cdn.example.com/live/a.M3U8'') (init quiet_env) =
     (None, emit (ContinueCall (plain_request ''https://cdn.example.com/live/a.M3U8'')) (init quiet_env)) \<and>
   assigned (effects_of
      (request_handler quiet_env (plain_request ''https://cdn.example.com/live/a.M3U8''))
      (init quiet_env)) = [] \<and>
   setup_succeeds quiet_env \<and> truthy (Some targetUrl) \<and> close_rejects quiet_env = None \<and>
   fst (findMinimalM3u8Link quiet_env (Some targetUrl)) = Inr None"
proof -
  have h: "\<not> endsWith (url (plain_request ''https://cdn.example.com/live/a.M3U8'')) ''.m3u8''"
    by (simp add: plain_request_def endsWith_def)
  have i: "\<not> isInterceptResolutionHandled (plain_request ''https://cdn.example.com/live/a.M3U8'')"
    "\<not> truthy (m3u8Link (init quiet_env))"
    by (simp_all add: plain_request_def init_def)
  have j: "endsWith ''?next=b.m3u8'' ''.m3u8''" "''?next=b.m3u8'' \<noteq> []"
    by (simp_all add: endsWith_def)
  have k: "setup_succeeds quiet_env" "close_rejects quiet_env = None"
    "request_urls (map snd (before_deadline (events quiet_env) @ during_late_close quiet_env)) = []"
    by (simp_all add: setup_succeeds_def quiet_env_def during_late_close_def)
  show ?thesis
    using manifest_predicate_exact [where p = "''https://cdn.example.com/live/a''"
        and q = "''?next=b.m3u8''" and env = quiet_env and s = "init quiet_env"
        and r = "plain_request ''https://cdn.example.com/live/a.M3U8''" and u = "Some targetUrl"]
      h i j k truthy_targetUrl
    by simp
qed

end
